theory Spec2Isabelle
  imports Complex_Main "HOL-Library.AList"
begin

section \<open>Exceptions\<close>

text \<open>
  Every exception the adapter can let escape is a value.  \<open>QiskitMachineLearningError\<close> is the
  one exception the module raises itself; \<open>TypeError\<close>, \<open>AttributeError\<close>, \<open>IndexError\<close> and
  \<open>ValueError\<close> are raised by Python and numpy on the adapter's own indexing, attribute access
  and reshaping; \<open>CollaboratorError\<close> stands for anything raised inside the external operator
  engine (converters, samplers, parameter binding, evaluation, a combination function).
\<close>

datatype error =
    QiskitMachineLearningError
  | TypeError
  | AttributeError
  | IndexError
  | ValueError
  | CollaboratorError

section \<open>numpy arrays\<close>

text \<open>
  An array is its shape and its elements in row-major order.  A well-formed array holds as
  many elements as the product of its shape.
\<close>

datatype 'a ndarray = NDArray (shape: "nat list") (data: "'a list")

definition wf_array :: "'a ndarray \<Rightarrow> bool" where
  "wf_array a = (length (data a) = prod_list (shape a))"

text \<open>\<open>np.zeros(shape)\<close>.\<close>

definition np_zeros :: "nat list \<Rightarrow> real ndarray" where
  "np_zeros s = NDArray s (replicate (prod_list s) 0)"

text \<open>\<open>np.real(a)\<close>: the element-wise real part.\<close>

definition np_real :: "complex ndarray \<Rightarrow> real ndarray" where
  "np_real a = NDArray (shape a) (map Re (data a))"

text \<open>
  \<open>a.reshape(-1, *dims)\<close>.  numpy multiplies the known dimensions; it raises \<open>ValueError\<close>
  when that product is zero or does not divide the number of elements, and otherwise the
  unknown leading dimension is the quotient.  The elements are kept in order.
\<close>

definition reshape_rows :: "'a ndarray \<Rightarrow> nat list \<Rightarrow> error + 'a ndarray" where
  "reshape_rows a dims =
     (let s_known = prod_list dims; s_original = prod_list (shape a)
      in if s_known = 0 \<or> s_original mod s_known \<noteq> 0 then Inl ValueError
         else Inr (NDArray ((s_original div s_known) # dims) (data a)))"

text \<open>The \<open>n\<close> consecutive blocks of \<open>m\<close> elements of a flat list.\<close>

definition blocks :: "nat \<Rightarrow> nat \<Rightarrow> 'a list \<Rightarrow> 'a list list" where
  "blocks n m xs = map (\<lambda>i. take m (drop (i * m) xs)) [0..<n]"

text \<open>
  \<open>a[:, :k]\<close> and \<open>a[:, k:]\<close>: a slice of the second axis.  An array with fewer than two
  axes raises \<open>IndexError\<close>; the slice bounds are clipped to the axis, as Python slices are.
\<close>

definition cols_upto :: "nat \<Rightarrow> 'a ndarray \<Rightarrow> error + 'a ndarray" where
  "cols_upto k a =
     (case shape a of
        d0 # d1 # rest \<Rightarrow>
          (let inner = prod_list rest; k' = min k d1
           in Inr (NDArray (d0 # k' # rest)
                 (concat (map (take (k' * inner)) (blocks d0 (d1 * inner) (data a))))))
      | _ \<Rightarrow> Inl IndexError)"

definition cols_from :: "nat \<Rightarrow> 'a ndarray \<Rightarrow> error + 'a ndarray" where
  "cols_from k a =
     (case shape a of
        d0 # d1 # rest \<Rightarrow>
          (let inner = prod_list rest; k' = min k d1
           in Inr (NDArray (d0 # (d1 - k') # rest)
                 (concat (map (drop (k' * inner)) (blocks d0 (d1 * inner) (data a))))))
      | _ \<Rightarrow> Inl IndexError)"

text \<open>
  \<open>a[:, i]\<close>: column \<open>i\<close> of the second axis; \<open>IndexError\<close> on an array with fewer than two
  axes and on an index outside the axis.
\<close>

definition column :: "'a ndarray \<Rightarrow> nat \<Rightarrow> error + 'a ndarray" where
  "column a i =
     (case shape a of
        d0 # d1 # rest \<Rightarrow>
          (let inner = prod_list rest
           in if i < d1
              then Inr (NDArray (d0 # rest)
                     (concat (map (\<lambda>b. take inner (drop (i * inner) b))
                        (blocks d0 (d1 * inner) (data a)))))
              else Inl IndexError)
      | _ \<Rightarrow> Inl IndexError)"

text \<open>\<open>a[i]\<close>: entry \<open>i\<close> of the first axis; \<open>IndexError\<close> on a 0-d array or a bad index.\<close>

definition item :: "'a ndarray \<Rightarrow> nat \<Rightarrow> error + 'a ndarray" where
  "item a i =
     (case shape a of
        d0 # rest \<Rightarrow>
          (let inner = prod_list rest
           in if i < d0 then Inr (NDArray rest (take inner (drop (i * inner) (data a))))
              else Inl IndexError)
      | [] \<Rightarrow> Inl IndexError)"

text \<open>\<open>a[row, j]\<close>: one entry of the first two axes.\<close>

definition item2 :: "'a ndarray \<Rightarrow> nat \<Rightarrow> nat \<Rightarrow> error + 'a ndarray" where
  "item2 a row j =
     (case shape a of
        d0 # d1 # rest \<Rightarrow>
          (let inner = prod_list rest
           in if row < d0 \<and> j < d1
              then Inr (NDArray rest (take inner (drop ((row * d1 + j) * inner) (data a))))
              else Inl IndexError)
      | _ \<Rightarrow> Inl IndexError)"

section \<open>Python values bound to parameters\<close>

text \<open>
  A parameter is bound to a number, to a (nested) list, or to an array (an entry of a
  weight array that has more than one axis).
\<close>

datatype pyvalue = Num real | Arr "real ndarray" | PyList "pyvalue list"

text \<open>\<open>a.tolist()\<close>: a number for a 0-d array, nested lists otherwise.\<close>

primrec tolist_aux :: "nat list \<Rightarrow> real list \<Rightarrow> pyvalue" where
  "tolist_aux [] xs = Num (hd xs)"
| "tolist_aux (d # ds) xs =
     PyList (map (tolist_aux ds) (blocks d (prod_list ds) xs))"

definition tolist :: "real ndarray \<Rightarrow> pyvalue" where
  "tolist a = tolist_aux (shape a) (data a)"

text \<open>What indexing hands back unconverted: a numpy scalar for a 0-d result, else the array.\<close>

definition scalar_or_array :: "real ndarray \<Rightarrow> pyvalue" where
  "scalar_or_array a = (if shape a = [] then Num (hd (data a)) else Arr a)"

type_synonym param = string

text \<open>
  A parameter dictionary \<open>{p: value}\<close>: the entries in insertion order, each key once.
  Storing under a key that is present replaces the value in place; a new key goes to the
  end.
\<close>

type_synonym param_values = "(param \<times> pyvalue) list"

text \<open>\<open>d.update(d')\<close>.\<close>

definition dict_update :: "('k \<times> 'v) list \<Rightarrow> ('k \<times> 'v) list \<Rightarrow> ('k \<times> 'v) list" where
  "dict_update d d' = fold (\<lambda>(k, v). AList.update k v) d' d"

text \<open>A dict comprehension over the given key-value pairs.\<close>

definition dict_of :: "('k \<times> 'v) list \<Rightarrow> ('k \<times> 'v) list" where
  "dict_of kvs = dict_update [] kvs"

section \<open>Operator expressions\<close>

text \<open>
  Operator expressions belong to the external engine; the adapter looks at three things
  only: the exact class of the object, the children \<open>oplist\<close> of a \<open>ListOp\<close> and its
  combination function \<open>combo_fn\<close>.  \<open>PrimitiveOp\<close> stands for every class outside the
  \<open>ListOp\<close> family (its content \<open>'l\<close> is the engine's own), \<open>ListOp\<close> for objects whose class is
  exactly \<open>ListOp\<close>, and \<open>SummedOp\<close>, \<open>ComposedOp\<close>, \<open>TensoredOp\<close> for its strict subclasses,
  which carry children and a combination function as well.  A combination function is a
  Python callable; \<open>None\<close> is a call that raises or whose result has no \<open>shape\<close>.
\<close>

type_synonym combo_fn = "real ndarray \<Rightarrow> real ndarray option"

datatype 'l operator =
    PrimitiveOp 'l
  | ListOp "'l operator list" combo_fn
  | SummedOp "'l operator list" combo_fn
  | ComposedOp "'l operator list" combo_fn
  | TensoredOp "'l operator list" combo_fn

text \<open>Results of the children in order; the first exception ends the loop.\<close>

fun collect :: "(error + 'a) list \<Rightarrow> error + 'a list" where
  "collect [] = Inr []"
| "collect (Inl e # rs) = Inl e"
| "collect (Inr v # rs) = (case collect rs of Inl e \<Rightarrow> Inl e | Inr vs \<Rightarrow> Inr (v # vs))"

text \<open>
  The zero-filled argument of the combination function: \<open>np.zeros((len(op.oplist)))\<close> when
  the children's shape is \<open>(1,)\<close>, \<open>np.zeros((len(op.oplist), *shapes[0]))\<close> otherwise.
\<close>

definition placeholder :: "nat \<Rightarrow> nat list \<Rightarrow> real ndarray" where
  "placeholder n shape0 = (if shape0 = [1] then np_zeros [n] else np_zeros (n # shape0))"

text \<open>
  \<open>_get_output_shape_from_op\<close>.  The test \<open>type(op) == ListOp\<close> holds for the constructor
  \<open>ListOp\<close> alone.  \<open>np.all\<close> of the empty list is true, so an empty \<open>oplist\<close> passes the
  comparison and \<open>shapes[0]\<close> then raises \<open>IndexError\<close>.
\<close>

fun get_output_shape_from_op :: "'l operator \<Rightarrow> error + nat list" where
  "get_output_shape_from_op (ListOp oplist combo) =
     (case collect (map get_output_shape_from_op oplist) of
        Inl e \<Rightarrow> Inl e
      | Inr shapes \<Rightarrow>
          if \<not> list_all (\<lambda>shape'. shape' = shapes ! 0) shapes
          then Inl QiskitMachineLearningError
          else (case shapes of
                  [] \<Rightarrow> Inl IndexError
                | shape0 # _ \<Rightarrow>
                    (case combo (placeholder (length oplist) shape0) of
                       None \<Rightarrow> Inl CollaboratorError
                     | Some out \<Rightarrow> Inr (shape out))))"
| "get_output_shape_from_op (PrimitiveOp t) = Inr [1]"
| "get_output_shape_from_op (SummedOp oplist combo) = Inr [1]"
| "get_output_shape_from_op (ComposedOp oplist combo) = Inr [1]"
| "get_output_shape_from_op (TensoredOp oplist combo) = Inr [1]"

section \<open>The external engine\<close>

text \<open>
  The operator engine is not part of this module; its operations are parameters of the
  model.  A sampler carries a cache that its \<open>convert\<close> may change, so \<open>convert\<close> returns the
  sampler it leaves behind, also when it raises (\<open>None\<close>).  Binding and evaluation act on
  expressions only.
\<close>

type_synonym backend = string

datatype quantum_instance = QuantumInstance (backend_of: backend)

text \<open>The constructor's \<open>quantum_instance\<close> argument: an instance or a raw backend.\<close>

datatype execution_context = Instance quantum_instance | RawBackend backend

datatype 'c sampler =
  CircuitSampler (sampler_instance: quantum_instance) (param_qobj: bool) (cache: 'c)

type_synonym 'l expectation = "'l operator \<Rightarrow> 'l operator option"

type_synonym 'l gradient_converter = "'l operator \<Rightarrow> param list \<Rightarrow> 'l operator option"

record ('l, 'c) engine =
  default_gradient :: "'l gradient_converter"
  is_aer_provider :: "backend \<Rightarrow> bool"
  empty_cache :: 'c
  sampler_convert ::
    "'c sampler \<Rightarrow> 'l operator \<Rightarrow> param_values \<Rightarrow> 'l operator option \<times> 'c sampler"
  bind_parameters :: "'l operator \<Rightarrow> param_values \<Rightarrow> 'l operator option"
  eval :: "'l operator \<Rightarrow> complex ndarray option"

section \<open>The adapter\<close>

text \<open>
  Modelled from the spec: the base class \<open>NeuralNetwork\<close> is not among the sources.  The
  spec says that construction initialises the network-interface base with input count,
  weight count and output shape, and that these are read-only attributes established at
  construction; the base is therefore the three stored values.
\<close>

record NeuralNetwork =
  num_inputs :: nat
  num_weights :: nat
  output_shape :: "nat list"

definition NeuralNetwork_init :: "nat \<Rightarrow> nat \<Rightarrow> nat list \<Rightarrow> NeuralNetwork" where
  "NeuralNetwork_init n_in n_w out =
     \<lparr>num_inputs = n_in, num_weights = n_w, output_shape = out\<rparr>"

record ('l, 'c) OpflowQNN = NeuralNetwork +
  operator :: "'l operator"
  input_params :: "param list"
  weight_params :: "param list"
  exp_val :: "'l expectation option"
  gradient :: "'l gradient_converter"
  quantum_instance :: "quantum_instance option"
  circuit_sampler :: "'c sampler option"
  gradient_sampler :: "'c sampler option"
  forward_operator :: "'l operator"
  gradient_operator :: "'l operator"

text \<open>\<open>list(params or [])\<close>.\<close>

definition params_or_empty :: "param list option \<Rightarrow> param list" where
  "params_or_empty ps = (case ps of None \<Rightarrow> [] | Some l \<Rightarrow> l)"

text \<open>
  \<open>__init__\<close>.  A raw backend is wrapped into an instance; with an instance the forward
  sampler is built and the gradient sampler is its deep copy, without one both are unset.
  Then, in the source's order: the forward expression, the gradient expression with respect
  to \<open>input_params + weight_params\<close>, the output shape, and the base class.
\<close>

definition OpflowQNN_init ::
  "('l, 'c) engine \<Rightarrow> 'l operator \<Rightarrow> param list option \<Rightarrow> param list option \<Rightarrow>
   'l expectation option \<Rightarrow> 'l gradient_converter option \<Rightarrow> execution_context option \<Rightarrow>
   error + ('l, 'c) OpflowQNN" where
  "OpflowQNN_init E op inputs ws ev gr ctx =
     (let ips = params_or_empty inputs;
          wps = params_or_empty ws;
          grad = (case gr of None \<Rightarrow> default_gradient E | Some g \<Rightarrow> g);
          qi = (case ctx of
                  None \<Rightarrow> None
                | Some (RawBackend b) \<Rightarrow> Some (QuantumInstance b)
                | Some (Instance q) \<Rightarrow> Some q);
          cs = (case qi of
                  None \<Rightarrow> None
                | Some q \<Rightarrow>
                    Some (CircuitSampler q (is_aer_provider E (backend_of q)) (empty_cache E)));
          gs = cs
      in case (case ev of None \<Rightarrow> Some op | Some conv \<Rightarrow> conv op) of
           None \<Rightarrow> Inl CollaboratorError
         | Some fwd \<Rightarrow>
             (case grad op (ips @ wps) of
                None \<Rightarrow> Inl CollaboratorError
              | Some gop \<Rightarrow>
                  (case get_output_shape_from_op op of
                     Inl e \<Rightarrow> Inl e
                   | Inr out \<Rightarrow>
                       (let base = NeuralNetwork_init (length ips) (length wps) out
                        in Inr \<lparr>num_inputs = num_inputs base,
                                num_weights = num_weights base,
                                output_shape = output_shape base,
                                operator = op,
                                input_params = ips,
                                weight_params = wps,
                                exp_val = ev,
                                gradient = grad,
                                quantum_instance = qi,
                                circuit_sampler = cs,
                                gradient_sampler = gs,
                                forward_operator = fwd,
                                gradient_operator = gop\<rparr>))))"

section \<open>Parameter dictionaries\<close>

text \<open>
  The batched dictionary of \<open>_forward\<close> and \<open>_backward_batch\<close> (the two functions build it
  with the same two statements).  The first comprehension subscripts \<open>input_data\<close>, which
  raises \<open>TypeError\<close> on \<open>None\<close>; the second evaluates \<open>weights[i]\<close> first and
  \<open>input_data.shape[0]\<close> after it, which raises \<open>AttributeError\<close> on \<open>None\<close>.  A comprehension
  over an empty parameter list touches neither argument.
\<close>

fun batch_inputs ::
  "real ndarray option \<Rightarrow> (nat \<times> param) list \<Rightarrow> error + (param \<times> pyvalue) list" where
  "batch_inputs input_data [] = Inr []"
| "batch_inputs input_data ((i, p) # rest) =
     (case input_data of
        None \<Rightarrow> Inl TypeError
      | Some a \<Rightarrow>
          (case column a i of
             Inl e \<Rightarrow> Inl e
           | Inr c \<Rightarrow>
               (case batch_inputs input_data rest of
                  Inl e \<Rightarrow> Inl e
                | Inr kvs \<Rightarrow> Inr ((p, tolist c) # kvs))))"

fun batch_weights ::
  "real ndarray option \<Rightarrow> real ndarray option \<Rightarrow> (nat \<times> param) list \<Rightarrow>
   error + (param \<times> pyvalue) list" where
  "batch_weights input_data weights [] = Inr []"
| "batch_weights input_data weights ((i, p) # rest) =
     (case weights of
        None \<Rightarrow> Inl TypeError
      | Some w \<Rightarrow>
          (case item w i of
             Inl e \<Rightarrow> Inl e
           | Inr v \<Rightarrow>
               (case input_data of
                  None \<Rightarrow> Inl AttributeError
                | Some a \<Rightarrow>
                    (case shape a of
                       [] \<Rightarrow> Inl IndexError
                     | n # _ \<Rightarrow>
                         (case batch_weights input_data weights rest of
                            Inl e \<Rightarrow> Inl e
                          | Inr kvs \<Rightarrow>
                              Inr ((p, PyList (replicate n (scalar_or_array v))) # kvs))))))"

definition batch_param_values ::
  "('l, 'c) OpflowQNN \<Rightarrow> real ndarray option \<Rightarrow> real ndarray option \<Rightarrow> error + param_values" where
  "batch_param_values self input_data weights =
     (case batch_inputs input_data (enumerate 0 (input_params self)) of
        Inl e \<Rightarrow> Inl e
      | Inr kvs \<Rightarrow>
          (case batch_weights input_data weights (enumerate 0 (weight_params self)) of
             Inl e \<Rightarrow> Inl e
           | Inr kvs' \<Rightarrow> Inr (dict_update (dict_of kvs) (dict_of kvs'))))"

text \<open>The dictionary of one row in \<open>_backward\<close>: scalars instead of lists.\<close>

fun row_inputs ::
  "real ndarray \<Rightarrow> nat \<Rightarrow> (nat \<times> param) list \<Rightarrow> error + (param \<times> pyvalue) list" where
  "row_inputs a row [] = Inr []"
| "row_inputs a row ((j, p) # rest) =
     (case item2 a row j of
        Inl e \<Rightarrow> Inl e
      | Inr v \<Rightarrow>
          (case row_inputs a row rest of
             Inl e \<Rightarrow> Inl e
           | Inr kvs \<Rightarrow> Inr ((p, tolist v) # kvs)))"

fun row_weights ::
  "real ndarray option \<Rightarrow> (nat \<times> param) list \<Rightarrow> error + (param \<times> pyvalue) list" where
  "row_weights weights [] = Inr []"
| "row_weights weights ((j, p) # rest) =
     (case weights of
        None \<Rightarrow> Inl TypeError
      | Some w \<Rightarrow>
          (case item w j of
             Inl e \<Rightarrow> Inl e
           | Inr v \<Rightarrow>
               (case row_weights weights rest of
                  Inl e \<Rightarrow> Inl e
                | Inr kvs \<Rightarrow> Inr ((p, scalar_or_array v) # kvs))))"

definition row_param_values ::
  "('l, 'c) OpflowQNN \<Rightarrow> real ndarray \<Rightarrow> real ndarray option \<Rightarrow> nat \<Rightarrow> error + param_values" where
  "row_param_values self a weights row =
     (case row_inputs a row (enumerate 0 (input_params self)) of
        Inl e \<Rightarrow> Inl e
      | Inr kvs \<Rightarrow>
          (case row_weights weights (enumerate 0 (weight_params self)) of
             Inl e \<Rightarrow> Inl e
           | Inr kvs' \<Rightarrow> Inr (dict_update (dict_of kvs) (dict_of kvs'))))"

section \<open>Forward pass\<close>

text \<open>
  Evaluation of the forward expression under a dictionary: through the sampler when there
  is one, by binding otherwise; the real part of what \<open>eval\<close> returns.  The result is
  paired with the adapter the call leaves behind: only a sampler's \<open>convert\<close> changes it.
\<close>

definition eval_forward ::
  "('l, 'c) engine \<Rightarrow> ('l, 'c) OpflowQNN \<Rightarrow> param_values \<Rightarrow>
   (error + real ndarray) \<times> ('l, 'c) OpflowQNN" where
  "eval_forward E self pv =
     (case circuit_sampler self of
        Some s \<Rightarrow>
          (case sampler_convert E s (forward_operator self) pv of
             (r, s') \<Rightarrow>
               (let self' = self\<lparr>circuit_sampler := Some s'\<rparr>
                in case r of
                     None \<Rightarrow> (Inl CollaboratorError, self')
                   | Some op \<Rightarrow>
                       (case eval E op of
                          None \<Rightarrow> (Inl CollaboratorError, self')
                        | Some v \<Rightarrow> (Inr (np_real v), self'))))
      | None \<Rightarrow>
          (case bind_parameters E (forward_operator self) pv of
             None \<Rightarrow> (Inl CollaboratorError, self)
           | Some op \<Rightarrow>
               (case eval E op of
                  None \<Rightarrow> (Inl CollaboratorError, self)
                | Some v \<Rightarrow> (Inr (np_real v), self))))"

text \<open>
  \<open>_forward\<close>.  \<open>np.array(result)\<close> copies the values; \<open>reshape(-1, *self.output_shape)\<close> is
  \<open>reshape_rows\<close>.
\<close>

definition forward ::
  "('l, 'c) engine \<Rightarrow> ('l, 'c) OpflowQNN \<Rightarrow> real ndarray option \<Rightarrow> real ndarray option \<Rightarrow>
   (error + real ndarray) \<times> ('l, 'c) OpflowQNN" where
  "forward E self input_data weights =
     (case batch_param_values self input_data weights of
        Inl e \<Rightarrow> (Inl e, self)
      | Inr pv \<Rightarrow>
          (case eval_forward E self pv of
             (Inl e, self') \<Rightarrow> (Inl e, self')
           | (Inr result, self') \<Rightarrow> (reshape_rows result (output_shape self'), self')))"

section \<open>Backward pass\<close>

text \<open>
  Evaluation of the gradient expression under a dictionary, as both backward paths write
  it: with a gradient sampler convert, bind again and evaluate; without one bind and
  evaluate.
\<close>

definition eval_gradient ::
  "('l, 'c) engine \<Rightarrow> ('l, 'c) OpflowQNN \<Rightarrow> param_values \<Rightarrow>
   (error + real ndarray) \<times> ('l, 'c) OpflowQNN" where
  "eval_gradient E self pv =
     (case gradient_sampler self of
        Some s \<Rightarrow>
          (case sampler_convert E s (gradient_operator self) pv of
             (r, s') \<Rightarrow>
               (let self' = self\<lparr>gradient_sampler := Some s'\<rparr>
                in case r of
                     None \<Rightarrow> (Inl CollaboratorError, self')
                   | Some g \<Rightarrow>
                       (case bind_parameters E g pv of
                          None \<Rightarrow> (Inl CollaboratorError, self')
                        | Some g' \<Rightarrow>
                            (case eval E g' of
                               None \<Rightarrow> (Inl CollaboratorError, self')
                             | Some v \<Rightarrow> (Inr (np_real v), self')))))
      | None \<Rightarrow>
          (case bind_parameters E (gradient_operator self) pv of
             None \<Rightarrow> (Inl CollaboratorError, self)
           | Some g \<Rightarrow>
               (case eval E g of
                  None \<Rightarrow> (Inl CollaboratorError, self)
                | Some v \<Rightarrow> (Inr (np_real v), self))))"

text \<open>
  The split that ends both backward paths: the input gradient is sliced and reshaped
  first, the weight gradient after it.
\<close>

definition split_gradient ::
  "('l, 'c) OpflowQNN \<Rightarrow> real ndarray \<Rightarrow> error + real ndarray \<times> real ndarray" where
  "split_gradient self grad =
     (case cols_upto (num_inputs self) grad of
        Inl e \<Rightarrow> Inl e
      | Inr gi \<Rightarrow>
          (case reshape_rows gi (output_shape self @ [num_inputs self]) of
             Inl e \<Rightarrow> Inl e
           | Inr input_grad \<Rightarrow>
               (case cols_from (num_inputs self) grad of
                  Inl e \<Rightarrow> Inl e
                | Inr gw \<Rightarrow>
                    (case reshape_rows gw (output_shape self @ [num_weights self]) of
                       Inl e \<Rightarrow> Inl e
                     | Inr weights_grad \<Rightarrow> Inr (input_grad, weights_grad)))))"

text \<open>\<open>_backward_batch\<close>.\<close>

definition backward_batch ::
  "('l, 'c) engine \<Rightarrow> ('l, 'c) OpflowQNN \<Rightarrow> real ndarray option \<Rightarrow> real ndarray option \<Rightarrow>
   (error + real ndarray \<times> real ndarray) \<times> ('l, 'c) OpflowQNN" where
  "backward_batch E self input_data weights =
     (case batch_param_values self input_data weights of
        Inl e \<Rightarrow> (Inl e, self)
      | Inr pv \<Rightarrow>
          (case eval_gradient E self pv of
             (Inl e, self') \<Rightarrow> (Inl e, self')
           | (Inr grad, self') \<Rightarrow> (split_gradient self' grad, self')))"

text \<open>
  \<open>grad_all[row, :] = grad\<close>.  numpy strips leading axes of length one from the value; what
  is left must be a scalar, which fills the row, or a vector as long as the row.  Anything
  else raises \<open>ValueError\<close>.
\<close>

definition broadcast_row :: "real ndarray \<Rightarrow> nat \<Rightarrow> error + real list" where
  "broadcast_row grad k =
     (let s = dropWhile (\<lambda>d. d = 1) (shape grad)
      in if s = [] then Inr (replicate k (hd (data grad)))
         else if s = [k] then Inr (data grad)
         else Inl ValueError)"

definition assign_row :: "real ndarray \<Rightarrow> nat \<Rightarrow> real ndarray \<Rightarrow> error + real ndarray" where
  "assign_row grad_all row grad =
     (case shape grad_all of
        [n, k] \<Rightarrow>
          (case broadcast_row grad k of
             Inl e \<Rightarrow> Inl e
           | Inr vs \<Rightarrow>
               Inr (NDArray [n, k]
                 (take (row * k) (data grad_all) @ vs @ drop (Suc row * k) (data grad_all))))
      | _ \<Rightarrow> Inl IndexError)"

text \<open>The loop over the rows of \<open>_backward\<close>, threading the buffer and the adapter.\<close>

fun backward_rows ::
  "('l, 'c) engine \<Rightarrow> real ndarray \<Rightarrow> real ndarray option \<Rightarrow> nat list \<Rightarrow> real ndarray \<Rightarrow>
   ('l, 'c) OpflowQNN \<Rightarrow> (error + real ndarray) \<times> ('l, 'c) OpflowQNN" where
  "backward_rows E a weights [] grad_all self = (Inr grad_all, self)"
| "backward_rows E a weights (row # rows) grad_all self =
     (case row_param_values self a weights row of
        Inl e \<Rightarrow> (Inl e, self)
      | Inr pv \<Rightarrow>
          (case eval_gradient E self pv of
             (Inl e, self') \<Rightarrow> (Inl e, self')
           | (Inr grad, self') \<Rightarrow>
               (case assign_row grad_all row grad of
                  Inl e \<Rightarrow> (Inl e, self')
                | Inr grad_all' \<Rightarrow> backward_rows E a weights rows grad_all' self')))"

text \<open>
  \<open>_backward\<close>.  \<open>input_data.shape[0]\<close> is read first: \<open>AttributeError\<close> on \<open>None\<close>,
  \<open>IndexError\<close> on a 0-d array.
\<close>

definition backward ::
  "('l, 'c) engine \<Rightarrow> ('l, 'c) OpflowQNN \<Rightarrow> real ndarray option \<Rightarrow> real ndarray option \<Rightarrow>
   (error + real ndarray \<times> real ndarray) \<times> ('l, 'c) OpflowQNN" where
  "backward E self input_data weights =
     (case input_data of
        None \<Rightarrow> (Inl AttributeError, self)
      | Some a \<Rightarrow>
          (case shape a of
             [] \<Rightarrow> (Inl IndexError, self)
           | n # _ \<Rightarrow>
               (case backward_rows E a weights [0..<n]
                       (np_zeros [n, length (input_params self) + length (weight_params self)])
                       self of
                  (Inl e, self') \<Rightarrow> (Inl e, self')
                | (Inr grad_all, self') \<Rightarrow> (split_gradient self' grad_all, self'))))"

section \<open>The calls shape inference makes\<close>

text \<open>
  The objects \<open>_get_output_shape_from_op\<close> is called on, in the order of the calls: the
  object itself and, for a \<open>ListOp\<close>, what the calls on its children visit, up to and
  including the first child whose call raises.
\<close>

definition calls_made :: "('a \<Rightarrow> error + 'b) \<Rightarrow> 'a list \<Rightarrow> nat" where
  "calls_made f xs = Suc (length (takeWhile (\<lambda>x. \<not> isl (f x)) xs))"

fun visited :: "'l operator \<Rightarrow> 'l operator list" where
  "visited (ListOp oplist combo) =
     ListOp oplist combo #
       concat (take (calls_made get_output_shape_from_op oplist) (map visited oplist))"
| "visited (PrimitiveOp t) = [PrimitiveOp t]"
| "visited (SummedOp oplist combo) = [SummedOp oplist combo]"
| "visited (ComposedOp oplist combo) = [ComposedOp oplist combo]"
| "visited (TensoredOp oplist combo) = [TensoredOp oplist combo]"

text \<open>
  A composite whose children disagree: every child of the \<open>ListOp\<close> has an inferred shape,
  and two of them have different ones.
\<close>

definition children_disagree :: "'l operator \<Rightarrow> bool" where
  "children_disagree op =
     (case op of
        ListOp oplist combo \<Rightarrow>
          list_all (\<lambda>c. \<not> isl (get_output_shape_from_op c)) oplist \<and>
          list_ex (\<lambda>c. list_ex (\<lambda>c'. get_output_shape_from_op c \<noteq> get_output_shape_from_op c')
                     oplist) oplist
      | _ \<Rightarrow> False)"

text \<open>
  Construction reaches shape inference when the two conversions before it return: the
  expectation converter, if one is given, and the gradient converter.
\<close>

definition inference_reached ::
  "('l, 'c) engine \<Rightarrow> 'l operator \<Rightarrow> param list option \<Rightarrow> param list option \<Rightarrow>
   'l expectation option \<Rightarrow> 'l gradient_converter option \<Rightarrow> bool" where
  "inference_reached E op inputs ws ev gr =
     ((case ev of None \<Rightarrow> True | Some conv \<Rightarrow> conv op \<noteq> None) \<and>
      (case gr of None \<Rightarrow> default_gradient E | Some g \<Rightarrow> g) op
        (params_or_empty inputs @ params_or_empty ws) \<noteq> None)"

section \<open>The evaluations a dictionary asks for\<close>



section \<open>The split of a gradient\<close>

text \<open>
  The columns of a gradient split at \<open>k\<close>: for every row \<open>i\<close> of the gradient, the columns
  below \<open>k\<close> are row \<open>i\<close> of the input gradient, in order, and the columns from \<open>k\<close> on are
  row \<open>i\<close> of the weight gradient.  When the gradient has more than two axes a column is a
  block of \<open>inner\<close> elements.
\<close>

definition columns_split :: "nat \<Rightarrow> real ndarray \<Rightarrow> real ndarray \<Rightarrow> real ndarray \<Rightarrow> bool" where
  "columns_split k grad input_grad weights_grad =
     (case shape grad of
        d0 # d1 # rest \<Rightarrow>
          (let inner = prod_list rest; lo = min k d1 * inner; hi = (d1 - min k d1) * inner
           in length (data input_grad) = d0 * lo \<and>
              length (data weights_grad) = d0 * hi \<and>
              list_all
                (\<lambda>i. list_all (\<lambda>q. data input_grad ! (i * lo + q)
                                      = data grad ! (i * (d1 * inner) + q)) [0..<lo] \<and>
                     list_all (\<lambda>q. data weights_grad ! (i * hi + q)
                                      = data grad ! (i * (d1 * inner) + lo + q)) [0..<hi])
                [0..<d0])
      | _ \<Rightarrow> False)"

section \<open>A small engine for the examples\<close>

text \<open>
  An engine in the manner of opflow, small enough to evaluate by hand.  A leaf is the sum of
  the squares of its parameters, twice a parameter (the derivative of such a sum), or a
  number.  The gradient with respect to a list of parameters is a \<open>ListOp\<close> of the
  derivatives; binding numbers replaces the leaves by their values; binding lists of \<open>n\<close>
  numbers gives a \<open>ListOp\<close> of the \<open>n\<close> bound copies; binding an expression without
  parameters returns it as it is.  A \<open>ListOp\<close> evaluates to its combination function
  applied to the stacked values of its children.  The sampler leaves the expression to be bound
  and counts its calls.
\<close>

datatype leaf = SumSquares "param list" | Twice param | Value real

fun all_some :: "'a option list \<Rightarrow> 'a list option" where
  "all_some [] = Some []"
| "all_some (None # rs) = None"
| "all_some (Some v # rs) = (case all_some rs of None \<Rightarrow> None | Some vs \<Rightarrow> Some (v # vs))"

fun deriv :: "param \<Rightarrow> leaf operator \<Rightarrow> leaf operator option" where
  "deriv p (PrimitiveOp l) =
     (case l of
        SumSquares qs \<Rightarrow> Some (PrimitiveOp (if p \<in> set qs then Twice p else Value 0))
      | _ \<Rightarrow> None)"
| "deriv p (ListOp ops combo) =
     (case all_some (map (deriv p) ops) of None \<Rightarrow> None | Some ds \<Rightarrow> Some (ListOp ds combo))"
| "deriv p (SummedOp ops combo) = None"
| "deriv p (ComposedOp ops combo) = None"
| "deriv p (TensoredOp ops combo) = None"

definition toy_gradient :: "leaf gradient_converter" where
  "toy_gradient op ps =
     (case all_some (map (\<lambda>p. deriv p op) ps) of
        None \<Rightarrow> None
      | Some ds \<Rightarrow> Some (ListOp ds Some))"

fun closed :: "leaf operator \<Rightarrow> bool" where
  "closed (PrimitiveOp l) = (case l of Value v \<Rightarrow> True | _ \<Rightarrow> False)"
| "closed (ListOp ops combo) = list_all closed ops"
| "closed (SummedOp ops combo) = False"
| "closed (ComposedOp ops combo) = False"
| "closed (TensoredOp ops combo) = False"

fun bind_numbers :: "(param \<times> real) list \<Rightarrow> leaf operator \<Rightarrow> leaf operator option" where
  "bind_numbers env (PrimitiveOp l) =
     (case l of
        SumSquares qs \<Rightarrow>
          (case all_some (map (map_of env) qs) of
             None \<Rightarrow> None
           | Some vs \<Rightarrow> Some (PrimitiveOp (Value (sum_list (map (\<lambda>v. v * v) vs)))))
      | Twice p \<Rightarrow>
          (case map_of env p of None \<Rightarrow> None | Some v \<Rightarrow> Some (PrimitiveOp (Value (2 * v))))
      | Value v \<Rightarrow> Some (PrimitiveOp (Value v)))"
| "bind_numbers env (ListOp ops combo) =
     (case all_some (map (bind_numbers env) ops) of
        None \<Rightarrow> None
      | Some bs \<Rightarrow> Some (ListOp bs combo))"
| "bind_numbers env (SummedOp ops combo) = None"
| "bind_numbers env (ComposedOp ops combo) = None"
| "bind_numbers env (TensoredOp ops combo) = None"

fun number :: "param \<times> pyvalue \<Rightarrow> (param \<times> real) option" where
  "number (p, Num v) = Some (p, v)"
| "number (p, Arr a) = None"
| "number (p, PyList vs) = None"

fun numbers :: "param \<times> pyvalue \<Rightarrow> (param \<times> real list) option" where
  "numbers (p, PyList vs) =
     (case all_some (map (\<lambda>v. number (p, v)) vs) of
        None \<Rightarrow> None
      | Some pvs \<Rightarrow> Some (p, map snd pvs))"
| "numbers (p, Num v) = None"
| "numbers (p, Arr a) = None"

definition toy_bind :: "leaf operator \<Rightarrow> param_values \<Rightarrow> leaf operator option" where
  "toy_bind op pv =
     (if closed op then Some op
      else case all_some (map number pv) of
             Some env \<Rightarrow> bind_numbers env op
           | None \<Rightarrow>
               (case all_some (map numbers pv) of
                  None \<Rightarrow> None
                | Some cols \<Rightarrow>
                    (let n = length (snd (hd cols))
                     in if list_all (\<lambda>(p, vs). length vs = n) cols
                        then (case all_some
                                     (map (\<lambda>r. bind_numbers (map (\<lambda>(p, vs). (p, vs ! r)) cols) op)
                                        [0..<n]) of
                                None \<Rightarrow> None
                              | Some bs \<Rightarrow> Some (ListOp bs Some))
                        else None)))"

definition stack :: "real ndarray list \<Rightarrow> real ndarray" where
  "stack arrs =
     (case arrs of
        [] \<Rightarrow> NDArray [0] []
      | a # _ \<Rightarrow> NDArray (length arrs # shape a) (concat (map data arrs)))"

fun toy_value :: "leaf operator \<Rightarrow> real ndarray option" where
  "toy_value (PrimitiveOp l) = (case l of Value v \<Rightarrow> Some (NDArray [] [v]) | _ \<Rightarrow> None)"
| "toy_value (ListOp ops combo) =
     (case all_some (map toy_value ops) of None \<Rightarrow> None | Some arrs \<Rightarrow> combo (stack arrs))"
| "toy_value (SummedOp ops combo) = None"
| "toy_value (ComposedOp ops combo) = None"
| "toy_value (TensoredOp ops combo) = None"

definition toy_eval :: "leaf operator \<Rightarrow> complex ndarray option" where
  "toy_eval op =
     (case toy_value op of
        None \<Rightarrow> None
      | Some a \<Rightarrow> Some (NDArray (shape a) (map complex_of_real (data a))))"

definition toy_engine :: "(leaf, nat) engine" where
  "toy_engine =
     \<lparr>default_gradient = toy_gradient,
      is_aer_provider = (\<lambda>b. b = ''aer_simulator''),
      empty_cache = 0,
      sampler_convert =
        (\<lambda>s op pv. (Some op, CircuitSampler (sampler_instance s) (param_qobj s) (Suc (cache s)))),
      bind_parameters = toy_bind,
      eval = toy_eval\<rparr>"

text \<open>
  Adapters over this engine, as \<open>__init__\<close> builds them without an execution context:
  \<open>const_qnn\<close> over the number 1, without parameters; \<open>x_qnn\<close> over \<open>x\<^sup>2\<close> with the input
  parameter \<open>x\<close> and no weight; \<open>w_qnn\<close> over \<open>w\<^sup>2\<close> with the weight \<open>w\<close> and no input;
  \<open>xw_qnn\<close> over \<open>x\<^sup>2 + w\<^sup>2\<close> with one input and one weight; \<open>pair_qnn\<close> over the \<open>ListOp\<close> of
  \<open>x\<^sup>2 + w\<^sup>2\<close> and \<open>x\<^sup>2\<close>, with one input, one weight and two outputs.
\<close>

definition const_qnn :: "(leaf, nat) OpflowQNN" where
  "const_qnn =
     \<lparr>num_inputs = 0, num_weights = 0, output_shape = [1],
      operator = PrimitiveOp (Value 1),
      input_params = [], weight_params = [],
      exp_val = None, gradient = toy_gradient, quantum_instance = None,
      circuit_sampler = None, gradient_sampler = None,
      forward_operator = PrimitiveOp (Value 1),
      gradient_operator = ListOp [] Some\<rparr>"

definition x_qnn :: "(leaf, nat) OpflowQNN" where
  "x_qnn =
     \<lparr>num_inputs = 1, num_weights = 0, output_shape = [1],
      operator = PrimitiveOp (SumSquares [''x'']),
      input_params = [''x''], weight_params = [],
      exp_val = None, gradient = toy_gradient, quantum_instance = None,
      circuit_sampler = None, gradient_sampler = None,
      forward_operator = PrimitiveOp (SumSquares [''x'']),
      gradient_operator = ListOp [PrimitiveOp (Twice ''x'')] Some\<rparr>"

definition w_qnn :: "(leaf, nat) OpflowQNN" where
  "w_qnn =
     \<lparr>num_inputs = 0, num_weights = 1, output_shape = [1],
      operator = PrimitiveOp (SumSquares [''w'']),
      input_params = [], weight_params = [''w''],
      exp_val = None, gradient = toy_gradient, quantum_instance = None,
      circuit_sampler = None, gradient_sampler = None,
      forward_operator = PrimitiveOp (SumSquares [''w'']),
      gradient_operator = ListOp [PrimitiveOp (Twice ''w'')] Some\<rparr>"

definition xw_qnn :: "(leaf, nat) OpflowQNN" where
  "xw_qnn =
     \<lparr>num_inputs = 1, num_weights = 1, output_shape = [1],
      operator = PrimitiveOp (SumSquares [''x'', ''w'']),
      input_params = [''x''], weight_params = [''w''],
      exp_val = None, gradient = toy_gradient, quantum_instance = None,
      circuit_sampler = None, gradient_sampler = None,
      forward_operator = PrimitiveOp (SumSquares [''x'', ''w'']),
      gradient_operator = ListOp [PrimitiveOp (Twice ''x''), PrimitiveOp (Twice ''w'')] Some\<rparr>"

definition pair_qnn :: "(leaf, nat) OpflowQNN" where
  "pair_qnn =
     \<lparr>num_inputs = 1, num_weights = 1, output_shape = [2],
      operator =
        ListOp [PrimitiveOp (SumSquares [''x'', ''w'']), PrimitiveOp (SumSquares [''x''])] Some,
      input_params = [''x''], weight_params = [''w''],
      exp_val = None, gradient = toy_gradient, quantum_instance = None,
      circuit_sampler = None, gradient_sampler = None,
      forward_operator =
        ListOp [PrimitiveOp (SumSquares [''x'', ''w'']), PrimitiveOp (SumSquares [''x''])] Some,
      gradient_operator =
        ListOp [ListOp [PrimitiveOp (Twice ''x''), PrimitiveOp (Twice ''x'')] Some,
                ListOp [PrimitiveOp (Twice ''w''), PrimitiveOp (Value 0)] Some] Some\<rparr>"

section \<open>Evaluating the examples\<close>

lemmas model_defs =
  OpflowQNN_init_def params_or_empty_def NeuralNetwork_init_def placeholder_def np_zeros_def
  Let_def

lemmas toy_defs =
  toy_engine_def toy_gradient_def


lemma x_qnn_init:
  "OpflowQNN_init toy_engine (PrimitiveOp (SumSquares [''x''])) (Some [''x'']) None None None None
     = Inr x_qnn"
  by (simp add: model_defs toy_defs x_qnn_def)

lemma w_qnn_init:
  "OpflowQNN_init toy_engine (PrimitiveOp (SumSquares [''w''])) None (Some [''w'']) None None None
     = Inr w_qnn"
  by (simp add: model_defs toy_defs w_qnn_def)

lemma xw_qnn_init:
  "OpflowQNN_init toy_engine (PrimitiveOp (SumSquares [''x'', ''w'']))
     (Some [''x'']) (Some [''w'']) None None None = Inr xw_qnn"
  by (simp add: model_defs toy_defs xw_qnn_def)

lemma pair_qnn_init:
  "OpflowQNN_init toy_engine
     (ListOp [PrimitiveOp (SumSquares [''x'', ''w'']), PrimitiveOp (SumSquares [''x''])] Some)
     (Some [''x'']) (Some [''w'']) None None None = Inr pair_qnn"
  by (simp add: model_defs toy_defs pair_qnn_def)

section \<open>Output-shape inference\<close>

text \<open>
  Claim C7.  Shape inference returns \<open>(1,)\<close> for every operator whose class is not exactly
  \<open>ListOp\<close>: for the leaves and also for the strict subclasses of \<open>ListOp\<close>, whose children
  it never looks at.
\<close>

theorem non_ListOp_shape:
  "(\<forall>oplist combo. op \<noteq> ListOp oplist combo) \<Longrightarrow> get_output_shape_from_op op = Inr [1]"
  by (cases op) simp_all

theorem non_ListOp_shape_witness:
  "(\<forall>oplist combo.
      SummedOp [PrimitiveOp (Value 0), ListOp [] Some] Some \<noteq> ListOp oplist combo)
   \<and> get_output_shape_from_op (SummedOp [PrimitiveOp (Value 0), ListOp [] Some] Some) = Inr [1]
   \<and> get_output_shape_from_op (PrimitiveOp (Value 7)) = Inr [1]"
  using non_ListOp_shape [of "SummedOp [PrimitiveOp (Value 0), ListOp [] Some] Some"]
        non_ListOp_shape [of "PrimitiveOp (Value 7)"]
  by simp

lemma collect_all_same:
  "list_all (\<lambda>r. r = Inr s) rs \<Longrightarrow> collect rs = Inr (replicate (length rs) s)"
  by (induction rs) auto

lemma collect_children_same:
  assumes "list_all (\<lambda>c. get_output_shape_from_op c = Inr s) oplist"
  shows "collect (map get_output_shape_from_op oplist) = Inr (replicate (length oplist) s)"
  using collect_all_same [of s "map get_output_shape_from_op oplist"] assms
  by (simp add: list_all_iff)

text \<open>
  Claim C10.  For a \<open>ListOp\<close> with at least one child whose children all have the inferred
  shape \<open>s\<close>, the inferred shape is the shape of what the combination function returns on a
  zero-filled array; that array is the flat vector of length \<open>len(oplist)\<close> when \<open>s\<close> is
  \<open>(1,)\<close>, and has shape \<open>(len(oplist), *s)\<close> only when \<open>s\<close> differs from \<open>(1,)\<close>.
\<close>

theorem placeholder_is_flat_for_unit_children:
  assumes "oplist \<noteq> []"
    and "list_all (\<lambda>c. get_output_shape_from_op c = Inr s) oplist"
  shows "get_output_shape_from_op (ListOp oplist combo) =
           (case combo (if s = [1]
                        then NDArray [length oplist] (replicate (length oplist) 0)
                        else NDArray (length oplist # s)
                               (replicate (length oplist * prod_list s) 0)) of
              None \<Rightarrow> Inl CollaboratorError
            | Some out \<Rightarrow> Inr (shape out))"
proof -
  let ?n = "length oplist"
  have shapes: "collect (map get_output_shape_from_op oplist) = Inr (replicate ?n s)"
    by (rule collect_children_same [OF assms(2)])
  have pos: "0 < ?n"
    using assms(1) by simp
  have same: "list_all (\<lambda>shape'. shape' = replicate ?n s ! 0) (replicate ?n s)"
    using pos by (simp add: list_all_iff)
  obtain m where m: "?n = Suc m"
    using pos by (cases ?n) auto
  have first: "replicate ?n s = s # replicate m s"
    by (simp add: m)
  have arg: "placeholder ?n s =
               (if s = [1] then NDArray [?n] (replicate ?n 0)
                else NDArray (?n # s) (replicate (?n * prod_list s) 0))"
    by (simp add: placeholder_def np_zeros_def)
  have "get_output_shape_from_op (ListOp oplist combo) =
          (case combo (placeholder ?n s) of
             None \<Rightarrow> Inl CollaboratorError
           | Some out \<Rightarrow> Inr (shape out))"
    using same by (simp add: shapes) (simp add: first)
  then show ?thesis
    by (simp only: arg)
qed

theorem placeholder_is_flat_for_unit_children_witness:
  "[PrimitiveOp (Value 0), PrimitiveOp (Value 1)] \<noteq> []
   \<and> list_all (\<lambda>c. get_output_shape_from_op c = Inr [1])
         [PrimitiveOp (Value 0), PrimitiveOp (Value 1)]
   \<and> get_output_shape_from_op (ListOp [PrimitiveOp (Value 0), PrimitiveOp (Value 1)] Some)
       = Inr [2]
   \<and> list_all (\<lambda>c. get_output_shape_from_op c = Inr [2])
         [ListOp [PrimitiveOp (Value 0), PrimitiveOp (Value 1)] Some,
          ListOp [PrimitiveOp (Value 2), PrimitiveOp (Value 3)] Some]
   \<and> get_output_shape_from_op
         (ListOp [ListOp [PrimitiveOp (Value 0), PrimitiveOp (Value 1)] Some,
                  ListOp [PrimitiveOp (Value 2), PrimitiveOp (Value 3)] Some] Some)
       = Inr [2, 2]"
proof -
  have flat: "list_all (\<lambda>c. get_output_shape_from_op c = Inr [1])
                [PrimitiveOp (Value 0), PrimitiveOp (Value 1)]"
    by simp
  have inner: "get_output_shape_from_op
                 (ListOp [PrimitiveOp (Value 0), PrimitiveOp (Value 1)] Some) = Inr [2]"
    using placeholder_is_flat_for_unit_children
            [of "[PrimitiveOp (Value 0), PrimitiveOp (Value 1)]" "[1]" Some] flat
    by simp
  have inner': "get_output_shape_from_op
                  (ListOp [PrimitiveOp (Value 2), PrimitiveOp (Value 3)] Some) = Inr [2]"
    using placeholder_is_flat_for_unit_children
            [of "[PrimitiveOp (Value 2), PrimitiveOp (Value 3)]" "[1]" Some]
    by simp
  have nested: "list_all (\<lambda>c. get_output_shape_from_op c = Inr [2])
         [ListOp [PrimitiveOp (Value 0), PrimitiveOp (Value 1)] Some,
          ListOp [PrimitiveOp (Value 2), PrimitiveOp (Value 3)] Some]"
    using inner inner' by simp
  have outer: "get_output_shape_from_op
         (ListOp [ListOp [PrimitiveOp (Value 0), PrimitiveOp (Value 1)] Some,
                  ListOp [PrimitiveOp (Value 2), PrimitiveOp (Value 3)] Some] Some)
       = Inr [2, 2]"
    using placeholder_is_flat_for_unit_children
            [of "[ListOp [PrimitiveOp (Value 0), PrimitiveOp (Value 1)] Some,
                  ListOp [PrimitiveOp (Value 2), PrimitiveOp (Value 3)] Some]" "[2]" Some] nested
    by simp
  show ?thesis
    using flat inner nested outer by simp
qed

section \<open>The shape-inconsistency error\<close>

lemma collect_Inl_iff:
  "collect (map f xs) = Inl e \<longleftrightarrow> (\<exists>x \<in> set (take (calls_made f xs) xs). f x = Inl e)"
proof (induction xs)
  case Nil
  then show ?case by (simp add: calls_made_def)
next
  case (Cons x xs)
  show ?case
  proof (cases "f x")
    case (Inl e')
    then show ?thesis by (simp add: calls_made_def)
  next
    case (Inr v)
    then show ?thesis
      using Cons.IH by (auto simp: calls_made_def split: sum.splits)
  qed
qed

lemma collect_eq_Inr: "collect rs = Inr ys \<longleftrightarrow> rs = map Inr ys"
proof (induction rs arbitrary: ys rule: collect.induct)
  case 1
  then show ?case by auto
next
  case (2 e rs)
  then show ?case by auto
next
  case (3 v rs)
  show ?case
  proof (cases ys)
    case Nil
    then show ?thesis by (simp split: sum.splits)
  next
    case (Cons y ys')
    then show ?thesis
      using "3.IH" [of ys'] by (auto split: sum.splits)
  qed
qed

lemma not_all_first_iff:
  "\<not> list_all (\<lambda>s. s = ys ! 0) ys \<longleftrightarrow> (\<exists>s \<in> set ys. \<exists>s' \<in> set ys. s \<noteq> s')"
proof (cases ys)
  case Nil
  then show ?thesis by simp
next
  case (Cons y ys')
  then show ?thesis by (auto simp: list_all_iff)
qed

lemma map_Inr_no_error:
  assumes "map f xs = map Inr ys"
  shows "\<forall>x \<in> set xs. \<not> isl (f x)"
proof
  fix x assume "x \<in> set xs"
  then have "f x \<in> set (map f xs)" by simp
  then have "f x \<in> Inr ` set ys" by (simp only: assms set_map)
  then show "\<not> isl (f x)" by auto
qed

lemma map_Inr_differ:
  assumes "map f xs = map Inr ys"
  shows "(\<exists>s \<in> set ys. \<exists>s' \<in> set ys. s \<noteq> s') \<longleftrightarrow> (\<exists>x \<in> set xs. \<exists>x' \<in> set xs. f x \<noteq> f x')"
proof -
  have img: "f ` set xs = Inr ` set ys"
    using arg_cong [OF assms, of set] by simp
  have "(\<exists>x \<in> set xs. \<exists>x' \<in> set xs. f x \<noteq> f x') \<longleftrightarrow> (\<exists>a \<in> f ` set xs. \<exists>b \<in> f ` set xs. a \<noteq> b)"
    by blast
  also have "\<dots> \<longleftrightarrow> (\<exists>s \<in> set ys. \<exists>s' \<in> set ys. s \<noteq> s')"
    unfolding img by blast
  finally show ?thesis by simp
qed

lemma no_error_map_Inr:
  assumes "\<forall>x \<in> set xs. \<not> isl (f x)"
  shows "map f xs = map Inr (map (\<lambda>x. projr (f x)) xs)"
  using assms by (induction xs) simp_all

lemma children_disagree_iff:
  "children_disagree (ListOp oplist combo) \<longleftrightarrow>
     (\<exists>shapes. collect (map get_output_shape_from_op oplist) = Inr shapes \<and>
               \<not> list_all (\<lambda>s. s = shapes ! 0) shapes)"
proof
  assume dis: "children_disagree (ListOp oplist combo)"
  let ?shapes = "map (\<lambda>c. projr (get_output_shape_from_op c)) oplist"
  have ok: "\<forall>c \<in> set oplist. \<not> isl (get_output_shape_from_op c)"
    using dis by (simp add: children_disagree_def list_all_iff)
  have shapes: "map get_output_shape_from_op oplist = map Inr ?shapes"
    by (rule no_error_map_Inr [OF ok])
  have "\<exists>c \<in> set oplist. \<exists>c' \<in> set oplist.
          get_output_shape_from_op c \<noteq> get_output_shape_from_op c'"
    using dis by (simp add: children_disagree_def list_ex_iff)
  then have "\<exists>s \<in> set ?shapes. \<exists>s' \<in> set ?shapes. s \<noteq> s'"
    by (simp only: map_Inr_differ [OF shapes])
  then have "\<not> list_all (\<lambda>s. s = ?shapes ! 0) ?shapes"
    by (simp only: not_all_first_iff)
  moreover have "collect (map get_output_shape_from_op oplist) = Inr ?shapes"
    using shapes by (simp only: collect_eq_Inr)
  ultimately show "\<exists>shapes. collect (map get_output_shape_from_op oplist) = Inr shapes \<and>
               \<not> list_all (\<lambda>s. s = shapes ! 0) shapes"
    by blast
next
  assume "\<exists>shapes. collect (map get_output_shape_from_op oplist) = Inr shapes \<and>
               \<not> list_all (\<lambda>s. s = shapes ! 0) shapes"
  then obtain shapes where shapes: "map get_output_shape_from_op oplist = map Inr shapes"
    and diff: "\<exists>s \<in> set shapes. \<exists>s' \<in> set shapes. s \<noteq> s'"
    by (auto simp only: collect_eq_Inr not_all_first_iff)
  have ok: "\<forall>c \<in> set oplist. \<not> isl (get_output_shape_from_op c)"
    by (rule map_Inr_no_error [OF shapes])
  have "\<exists>c \<in> set oplist. \<exists>c' \<in> set oplist.
               get_output_shape_from_op c \<noteq> get_output_shape_from_op c'"
    using diff by (simp only: map_Inr_differ [OF shapes])
  then show "children_disagree (ListOp oplist combo)"
    using ok by (simp add: children_disagree_def list_all_iff list_ex_iff)
qed

lemma ListOp_inference_error_iff:
  "get_output_shape_from_op (ListOp oplist combo) = Inl QiskitMachineLearningError \<longleftrightarrow>
     collect (map get_output_shape_from_op oplist) = Inl QiskitMachineLearningError \<or>
     (\<exists>shapes. collect (map get_output_shape_from_op oplist) = Inr shapes \<and>
               \<not> list_all (\<lambda>s. s = shapes ! 0) shapes)"
  by (auto split: sum.splits list.splits option.splits)

lemma inference_error_iff_trace:
  "get_output_shape_from_op op = Inl QiskitMachineLearningError \<longleftrightarrow>
     list_ex children_disagree (visited op)"
proof (induction op)
  case (ListOp oplist combo)
  let ?k = "calls_made get_output_shape_from_op oplist"
  have sub: "set (take ?k oplist) \<subseteq> set oplist"
    by (rule set_take_subset)
  have "list_ex children_disagree (visited (ListOp oplist combo)) \<longleftrightarrow>
          children_disagree (ListOp oplist combo) \<or>
          (\<exists>c \<in> set (take ?k oplist). list_ex children_disagree (visited c))"
    by (auto simp: list_ex_iff take_map)
  also have "\<dots> \<longleftrightarrow> children_disagree (ListOp oplist combo) \<or>
          (\<exists>c \<in> set (take ?k oplist). get_output_shape_from_op c = Inl QiskitMachineLearningError)"
    using ListOp.IH sub by blast
  also have "\<dots> \<longleftrightarrow> children_disagree (ListOp oplist combo) \<or>
          collect (map get_output_shape_from_op oplist) = Inl QiskitMachineLearningError"
    by (simp only: collect_Inl_iff)
  finally show ?case
    by (simp only: ListOp_inference_error_iff children_disagree_iff) blast
qed (simp_all add: children_disagree_def)

text \<open>
  Claim C5.  Construction raises the shape-inconsistency error exactly when it reaches
  shape inference and one of the objects the inference is called on is a \<open>ListOp\<close> whose
  children all have an inferred shape, not all the same.  The error is the result of
  construction: no adapter is returned.
\<close>

theorem shape_error_iff:
  "OpflowQNN_init E op inputs ws ev gr ctx = Inl QiskitMachineLearningError \<longleftrightarrow>
     inference_reached E op inputs ws ev gr \<and> list_ex children_disagree (visited op)"
proof -
  have "OpflowQNN_init E op inputs ws ev gr ctx = Inl QiskitMachineLearningError \<longleftrightarrow>
          inference_reached E op inputs ws ev gr \<and>
          get_output_shape_from_op op = Inl QiskitMachineLearningError"
    by (auto simp: OpflowQNN_init_def inference_reached_def Let_def
             split: option.splits sum.splits)
  then show ?thesis
    by (simp only: inference_error_iff_trace)
qed

theorem shape_error_iff_witness:
  "OpflowQNN_init toy_engine
     (ListOp [PrimitiveOp (SumSquares [''x'']),
              ListOp [PrimitiveOp (SumSquares [''x'']), PrimitiveOp (SumSquares [''x''])] Some]
        Some)
     (Some [''x'']) None None None None = Inl QiskitMachineLearningError
   \<and> inference_reached toy_engine
     (ListOp [PrimitiveOp (SumSquares [''x'']),
              ListOp [PrimitiveOp (SumSquares [''x'']), PrimitiveOp (SumSquares [''x''])] Some]
        Some)
     (Some [''x'']) None None None
   \<and> list_ex children_disagree
     (visited
       (ListOp [PrimitiveOp (SumSquares [''x'']),
                ListOp [PrimitiveOp (SumSquares [''x'']), PrimitiveOp (SumSquares [''x''])] Some]
          Some))
   \<and> OpflowQNN_init toy_engine (ListOp [] Some) (Some [''x'']) None None None None
       = Inl IndexError
   \<and> \<not> list_ex children_disagree (visited (ListOp [] Some :: leaf operator))"
proof -
  let ?op = "ListOp [PrimitiveOp (SumSquares [''x'']),
              ListOp [PrimitiveOp (SumSquares [''x'']), PrimitiveOp (SumSquares [''x''])] Some]
        Some"
  have raised: "OpflowQNN_init toy_engine ?op (Some [''x'']) None None None None
                  = Inl QiskitMachineLearningError"
    by (simp add: model_defs toy_defs)
  have other: "OpflowQNN_init toy_engine (ListOp [] Some) (Some [''x'']) None None None None
                  = Inl IndexError"
    by (simp add: model_defs toy_defs)
  show ?thesis
    using raised other
      shape_error_iff [of toy_engine ?op "Some [''x'']" None None None None]
      shape_error_iff [of toy_engine "ListOp [] Some" "Some [''x'']" None None None None]
    by (simp add: inference_reached_def toy_defs params_or_empty_def)
qed

section \<open>Calls without an execution context\<close>

lemma init_no_context:
  assumes "OpflowQNN_init E op inputs ws ev gr None = Inr self"
  shows "circuit_sampler self = None \<and> gradient_sampler self = None"
  using assms
  by (auto simp: OpflowQNN_init_def Let_def split: option.splits sum.splits)

lemma eval_forward_no_sampler:
  "circuit_sampler self = None \<Longrightarrow> snd (eval_forward E self pv) = self"
  by (simp add: eval_forward_def split: option.splits)

lemma forward_no_sampler:
  assumes "circuit_sampler self = None"
  shows "snd (forward E self x w) = self"
proof (cases "batch_param_values self x w")
  case (Inl e)
  then show ?thesis by (simp add: forward_def)
next
  case (Inr pv)
  obtain r s where ev: "eval_forward E self pv = (r, s)"
    by (cases "eval_forward E self pv")
  have "s = self"
    using eval_forward_no_sampler [OF assms, of E pv] ev by simp
  then show ?thesis
    using Inr ev by (cases r) (simp_all add: forward_def)
qed

lemma eval_gradient_no_sampler:
  "gradient_sampler self = None \<Longrightarrow> snd (eval_gradient E self pv) = self"
  by (simp add: eval_gradient_def split: option.splits)

lemma backward_batch_no_sampler:
  assumes "gradient_sampler self = None"
  shows "snd (backward_batch E self x w) = self"
proof (cases "batch_param_values self x w")
  case (Inl e)
  then show ?thesis by (simp add: backward_batch_def)
next
  case (Inr pv)
  obtain r s where ev: "eval_gradient E self pv = (r, s)"
    by (cases "eval_gradient E self pv")
  have "s = self"
    using eval_gradient_no_sampler [OF assms, of E pv] ev by simp
  then show ?thesis
    using Inr ev by (cases r) (simp_all add: backward_batch_def)
qed

lemma backward_rows_no_sampler:
  assumes "gradient_sampler self = None"
  shows "snd (backward_rows E a w rows grad_all self) = self"
proof (induction rows arbitrary: grad_all)
  case Nil
  then show ?case by simp
next
  case (Cons row rows)
  show ?case
  proof (cases "row_param_values self a w row")
    case (Inl e)
    then show ?thesis by simp
  next
    case (Inr pv)
    obtain r s where ev: "eval_gradient E self pv = (r, s)"
      by (cases "eval_gradient E self pv")
    have s: "s = self"
      using eval_gradient_no_sampler [OF assms, of E pv] ev by simp
    show ?thesis
    proof (cases r)
      case (Inl e)
      then show ?thesis using Inr ev s by simp
    next
      case grad: (Inr grad)
      then show ?thesis
        using Inr ev s Cons.IH by (cases "assign_row grad_all row grad") simp_all
    qed
  qed
qed

lemma backward_no_sampler:
  assumes "gradient_sampler self = None"
  shows "snd (backward E self x w) = self"
proof (cases x)
  case None
  then show ?thesis by (simp add: backward_def)
next
  case (Some a)
  show ?thesis
  proof (cases "shape a")
    case Nil
    then show ?thesis using Some by (simp add: backward_def)
  next
    case (Cons n rest)
    let ?buf = "np_zeros [n, length (input_params self) + length (weight_params self)]"
    obtain r s where rows: "backward_rows E a w [0..<n] ?buf self = (r, s)"
      by (cases "backward_rows E a w [0..<n] ?buf self")
    have "s = self"
      using backward_rows_no_sampler [OF assms, of E a w "[0..<n]" ?buf] rows by simp
    then show ?thesis
      using Some Cons rows by (cases r) (simp_all add: backward_def)
  qed
qed

text \<open>
  Claim C9.  An adapter constructed without an execution context has no sampler; a forward
  or backward call leaves it as it was, so a second call with the same arguments returns
  what the first returned.
\<close>

theorem no_context_deterministic:
  assumes "OpflowQNN_init E op inputs ws ev gr None = Inr self"
  shows "snd (forward E self x w) = self
       \<and> forward E (snd (forward E self x w)) x w = forward E self x w
       \<and> snd (backward E self x w) = self
       \<and> backward E (snd (backward E self x w)) x w = backward E self x w
       \<and> snd (backward_batch E self x w) = self
       \<and> backward_batch E (snd (backward_batch E self x w)) x w = backward_batch E self x w"
proof -
  have none: "circuit_sampler self = None" "gradient_sampler self = None"
    using init_no_context [OF assms] by simp_all
  show ?thesis
    by (simp add: forward_no_sampler [OF none(1)] backward_no_sampler [OF none(2)]
          backward_batch_no_sampler [OF none(2)])
qed

theorem no_context_deterministic_witness:
  "OpflowQNN_init toy_engine (PrimitiveOp (SumSquares [''x'', ''w'']))
     (Some [''x'']) (Some [''w'']) None None None = Inr xw_qnn
   \<and> fst (forward toy_engine xw_qnn (Some (NDArray [2, 1] [1, 2])) (Some (NDArray [1] [3])))
       = Inr (NDArray [2, 1] [10, 13])
   \<and> fst (forward toy_engine
            (snd (forward toy_engine xw_qnn (Some (NDArray [2, 1] [1, 2]))
                    (Some (NDArray [1] [3]))))
            (Some (NDArray [2, 1] [1, 2])) (Some (NDArray [1] [3])))
       = Inr (NDArray [2, 1] [10, 13])
   \<and> fst (backward toy_engine
            (snd (backward toy_engine xw_qnn (Some (NDArray [2, 1] [1, 2]))
                    (Some (NDArray [1] [3]))))
            (Some (NDArray [2, 1] [1, 2])) (Some (NDArray [1] [3])))
       = Inr (NDArray [2, 1, 1] [2, 4], NDArray [2, 1, 1] [6, 6])"
proof -
  have first: "fst (forward toy_engine xw_qnn (Some (NDArray [2, 1] [1, 2]))
                      (Some (NDArray [1] [3]))) = Inr (NDArray [2, 1] [10, 13])"
    by code_simp
  have bwd: "fst (backward toy_engine xw_qnn (Some (NDArray [2, 1] [1, 2]))
                     (Some (NDArray [1] [3])))
                = Inr (NDArray [2, 1, 1] [2, 4], NDArray [2, 1, 1] [6, 6])"
    by code_simp
  show ?thesis
    using first bwd xw_qnn_init
      no_context_deterministic [OF xw_qnn_init,
        of "Some (NDArray [2, 1] [1, 2])" "Some (NDArray [1] [3])"]
    by simp
qed

section \<open>The shape of the forward result\<close>

















text \<open>
  Without parameters the batch is not read at all: whatever the engine, the result cannot
  follow the number of rows.
\<close>

lemma forward_without_parameters:
  assumes "input_params self = []" and "weight_params self = []"
  shows "forward E self x w = forward E self x' w'"
proof -
  have "batch_param_values self x w = batch_param_values self x' w'"
    using assms by (simp add: batch_param_values_def)
  then show ?thesis
    by (simp add: forward_def)
qed


section \<open>Absent and empty arguments\<close>

lemma batch_weights_rows_only:
  assumes "shape a = n # rest" and "shape a' = n # rest'"
  shows "batch_weights (Some a) w kps = batch_weights (Some a') w kps"
  using assms
  by (induction "Some a" w kps rule: batch_weights.induct)
     (simp_all split: option.splits sum.splits)

lemma batch_weights_absent_input:
  "kps \<noteq> [] \<Longrightarrow> isl (batch_weights None w kps)"
  by (cases kps; cases w) (auto split: sum.splits)

lemma enumerate_not_Nil: "ps \<noteq> [] \<Longrightarrow> enumerate k ps \<noteq> []"
  by (cases ps) simp_all

text \<open>
  Building the dictionary reads an argument only for the sake of a parameter: without
  parameters neither argument is read; without weight parameters the weights are not
  read; without input parameters only the row count of the input is read, and then only
  when there is a weight parameter, in which case an absent input raises; with an input
  parameter an absent input raises at the first subscript.  \<open>_forward\<close> depends on its
  arguments through the dictionary alone.
\<close>

lemma unused_arguments_not_read:
  "(input_params self = [] \<and> weight_params self = [] \<longrightarrow>
      batch_param_values self x w = Inr [])
   \<and> (weight_params self = [] \<longrightarrow>
      batch_param_values self x w = batch_param_values self x None)
   \<and> (input_params self = [] \<and> shape a = n # rest \<longrightarrow>
      batch_param_values self (Some a) w
        = batch_param_values self (Some (NDArray [n, 0] [])) w)
   \<and> (input_params self = [] \<and> weight_params self \<noteq> [] \<longrightarrow>
      isl (batch_param_values self None w))
   \<and> (input_params self \<noteq> [] \<longrightarrow>
      batch_param_values self None w = Inl TypeError)
   \<and> (batch_param_values self x w = batch_param_values self x' w' \<longrightarrow>
      forward E self x w = forward E self x' w')"
proof (intro conjI impI)
  assume h: "input_params self = [] \<and> weight_params self = []"
  have "batch_inputs x (enumerate 0 (input_params self)) = Inr []"
      "batch_weights x w (enumerate 0 (weight_params self)) = Inr []"
    using h by simp_all
  then show "batch_param_values self x w = Inr []"
    by (simp add: batch_param_values_def dict_of_def dict_update_def)
next
  assume h: "weight_params self = []"
  have "batch_weights x w (enumerate 0 (weight_params self))
          = batch_weights x None (enumerate 0 (weight_params self))"
    using h by simp
  then show "batch_param_values self x w = batch_param_values self x None"
    by (simp add: batch_param_values_def split: sum.splits)
next
  assume h: "input_params self = [] \<and> shape a = n # rest"
  have inputs: "batch_inputs (Some a) (enumerate 0 (input_params self))
          = batch_inputs (Some (NDArray [n, 0] [])) (enumerate 0 (input_params self))"
    using h by simp
  have "batch_weights (Some a) w (enumerate 0 (weight_params self))
          = batch_weights (Some (NDArray [n, 0] [])) w (enumerate 0 (weight_params self))"
    using batch_weights_rows_only [of a n rest "NDArray [n, 0] []" "[0]" w] h by simp
  then show "batch_param_values self (Some a) w
               = batch_param_values self (Some (NDArray [n, 0] [])) w"
    using inputs by (simp add: batch_param_values_def split: sum.splits)
next
  assume h: "input_params self = [] \<and> weight_params self \<noteq> []"
  have "isl (batch_weights None w (enumerate 0 (weight_params self)))"
    using h by (intro batch_weights_absent_input enumerate_not_Nil) simp
  then obtain e where "batch_weights None w (enumerate 0 (weight_params self)) = Inl e"
    by (cases "batch_weights None w (enumerate 0 (weight_params self))") simp_all
  moreover have "batch_inputs None (enumerate 0 (input_params self)) = Inr []"
    using h by simp
  ultimately show "isl (batch_param_values self None w)"
    by (simp add: batch_param_values_def)
next
  assume "input_params self \<noteq> []"
  then obtain p ps where "input_params self = p # ps"
    by (cases "input_params self") auto
  then have "batch_inputs None (enumerate 0 (input_params self)) = Inl TypeError"
    by simp
  then show "batch_param_values self None w = Inl TypeError"
    by (simp add: batch_param_values_def)
next
  assume "batch_param_values self x w = batch_param_values self x' w'"
  then show "forward E self x w = forward E self x' w'"
    by (simp add: forward_def)
qed

text \<open>
  Claim C8.  The adapter over \<open>w\<^sup>2\<close> has no input parameter and one weight parameter.  Its
  empty input parameter list permits an absent input, and \<open>_forward\<close> declares the argument
  optional; but the list bound to the weight is as long as \<open>input_data.shape[0]\<close>, and with
  \<open>input_data = None\<close> building the dictionary raises \<open>AttributeError\<close>.  The empty 2-D
  array of two rows is accepted, and so is an absent input once there is no parameter at
  all.
\<close>

theorem forward_absent_input_raises:
  "OpflowQNN_init toy_engine (PrimitiveOp (SumSquares [''w''])) None (Some [''w'']) None None None
     = Inr w_qnn
   \<and> input_params w_qnn = []
   \<and> weight_params w_qnn = [''w'']
   \<and> batch_param_values w_qnn None (Some (NDArray [1] [3])) = Inl AttributeError
   \<and> fst (forward toy_engine w_qnn None (Some (NDArray [1] [3]))) = Inl AttributeError
   \<and> fst (forward toy_engine w_qnn (Some (NDArray [2, 0] [])) (Some (NDArray [1] [3])))
       = Inr (NDArray [2, 1] [9, 9])
   \<and> fst (forward toy_engine const_qnn None None) = Inr (NDArray [1, 1] [1])"
proof -
  have "batch_param_values w_qnn None (Some (NDArray [1] [3])) = Inl AttributeError"
      "fst (forward toy_engine w_qnn None (Some (NDArray [1] [3]))) = Inl AttributeError"
      "fst (forward toy_engine w_qnn (Some (NDArray [2, 0] [])) (Some (NDArray [1] [3])))
         = Inr (NDArray [2, 1] [9, 9])"
      "fst (forward toy_engine const_qnn None None) = Inr (NDArray [1, 1] [1])"
    by code_simp+
  then show ?thesis
    using w_qnn_init by (simp add: w_qnn_def)
qed

section \<open>What a backward pass leaves of the adapter\<close>

lemma eval_gradient_frame:
  "\<exists>gs. snd (eval_gradient E self pv) = self\<lparr>gradient_sampler := gs\<rparr>"
proof (cases "gradient_sampler self")
  case None
  have "snd (eval_gradient E self pv) = self"
    by (rule eval_gradient_no_sampler [OF None])
  also have "self = self\<lparr>gradient_sampler := None\<rparr>"
    using None by simp
  finally show ?thesis by blast
next
  case (Some s)
  then show ?thesis
    by (auto simp: eval_gradient_def Let_def split: option.splits prod.splits)
qed

lemma row_param_values_frame:
  "row_param_values (self\<lparr>gradient_sampler := gs\<rparr>) a w row = row_param_values self a w row"
  by (simp add: row_param_values_def cong: sum.case_cong)

lemma split_gradient_frame:
  "split_gradient (self\<lparr>gradient_sampler := gs\<rparr>) grad = split_gradient self grad"
  by (simp add: split_gradient_def cong: sum.case_cong)

lemma backward_rows_frame:
  "\<exists>gs. snd (backward_rows E a w rows grad_all self) = self\<lparr>gradient_sampler := gs\<rparr>"
proof (induction rows arbitrary: grad_all self)
  case Nil
  have "self = self\<lparr>gradient_sampler := gradient_sampler self\<rparr>" by simp
  then show ?case by (metis backward_rows.simps(1) snd_conv)
next
  case (Cons row rows)
  have same: "\<exists>gs. self = self\<lparr>gradient_sampler := gs\<rparr>"
    by (rule exI [of _ "gradient_sampler self"]) simp
  show ?case
  proof (cases "row_param_values self a w row")
    case (Inl e)
    then show ?thesis using same by simp
  next
    case (Inr pv)
    obtain r s where ev: "eval_gradient E self pv = (r, s)"
      by (cases "eval_gradient E self pv")
    obtain gs where s: "s = self\<lparr>gradient_sampler := gs\<rparr>"
      using eval_gradient_frame [of E self pv] ev by auto
    show ?thesis
    proof (cases r)
      case (Inl e)
      then show ?thesis using Inr ev s by auto
    next
      case grad: (Inr grad)
      show ?thesis
      proof (cases "assign_row grad_all row grad")
        case (Inl e)
        then show ?thesis using Inr ev s grad by auto
      next
        case buf: (Inr grad_all')
        obtain gs' where "snd (backward_rows E a w rows grad_all' s) = s\<lparr>gradient_sampler := gs'\<rparr>"
          using Cons.IH [of grad_all' s] by blast
        then have "snd (backward_rows E a w rows grad_all' s) = self\<lparr>gradient_sampler := gs'\<rparr>"
          by (simp add: s)
        then show ?thesis using Inr ev grad buf by auto
      qed
    qed
  qed
qed

section \<open>Backward passes that cannot return\<close>

text \<open>
  A reshape to \<open>(-1, ..., 0)\<close> raises whatever the array: with no input parameter or no
  weight parameter the split that ends both backward paths raises, so neither path ever
  returns a pair of gradients.
\<close>

lemma reshape_rows_zero_axis: "reshape_rows a (dims @ [0]) = Inl ValueError"
  by (simp add: reshape_rows_def)

lemma split_gradient_zero_inputs:
  "num_inputs self = 0 \<Longrightarrow> isl (split_gradient self grad)"
  by (simp add: split_gradient_def reshape_rows_zero_axis split: sum.splits)

lemma split_gradient_zero_weights:
  "num_weights self = 0 \<Longrightarrow> isl (split_gradient self grad)"
  by (simp add: split_gradient_def reshape_rows_zero_axis split: sum.splits)

lemma backward_batch_ends_with_split:
  "isl (fst (backward_batch E self x w)) \<or>
   (\<exists>grad. fst (backward_batch E self x w) = split_gradient self grad)"
proof (cases "batch_param_values self x w")
  case (Inl e)
  then show ?thesis by (simp add: backward_batch_def)
next
  case (Inr pv)
  obtain r s where ev: "eval_gradient E self pv = (r, s)"
    by (cases "eval_gradient E self pv")
  obtain gs where s: "s = self\<lparr>gradient_sampler := gs\<rparr>"
    using eval_gradient_frame [of E self pv] ev by auto
  show ?thesis
    using Inr ev s by (cases r) (auto simp: backward_batch_def split_gradient_frame)
qed

lemma backward_ends_with_split:
  "isl (fst (backward E self x w)) \<or>
   (\<exists>grad. fst (backward E self x w) = split_gradient self grad)"
proof (cases x)
  case None
  then show ?thesis by (simp add: backward_def)
next
  case (Some a)
  show ?thesis
  proof (cases "shape a")
    case Nil
    then show ?thesis using Some by (simp add: backward_def)
  next
    case (Cons n rest)
    let ?buf = "np_zeros [n, length (input_params self) + length (weight_params self)]"
    obtain r s where rows: "backward_rows E a w [0..<n] ?buf self = (r, s)"
      by (cases "backward_rows E a w [0..<n] ?buf self")
    obtain gs where s: "s = self\<lparr>gradient_sampler := gs\<rparr>"
      using backward_rows_frame [of E a w "[0..<n]" ?buf self] rows by auto
    show ?thesis
      using Some Cons rows s by (cases r) (auto simp: backward_def split_gradient_frame)
  qed
qed

lemma backward_never_returns:
  assumes "num_inputs self = 0 \<or> num_weights self = 0"
  shows "isl (fst (backward E self x w)) \<and> isl (fst (backward_batch E self x w))"
proof -
  have "isl (split_gradient self grad)" for grad
    using assms split_gradient_zero_inputs split_gradient_zero_weights by blast
  then show ?thesis
    using backward_ends_with_split [of E self x w] backward_batch_ends_with_split [of E self x w]
    by auto
qed

text \<open>
  Claim C6.  The adapter over \<open>x\<^sup>2\<close> with one input parameter and no weight parameter, on a
  batch of two rows: the forward pass returns and the gradient evaluates, but both
  backward paths raise \<open>ValueError\<close> at the reshape of the weight gradient, where the claim
  expects a weight gradient of shape \<open>(2, 1, 0)\<close>.
\<close>

theorem backward_without_weights_raises:
  "OpflowQNN_init toy_engine (PrimitiveOp (SumSquares [''x''])) (Some [''x'']) None None None None
     = Inr x_qnn
   \<and> num_inputs x_qnn = 1 \<and> num_weights x_qnn = 0 \<and> output_shape x_qnn = [1]
   \<and> fst (forward toy_engine x_qnn (Some (NDArray [2, 1] [0, 3])) (Some (NDArray [0] [])))
       = Inr (NDArray [2, 1] [0, 9])
   \<and> fst (eval_gradient toy_engine x_qnn [(''x'', PyList [Num 0, Num 3])])
       = Inr (NDArray [2, 1] [0, 6])
   \<and> fst (backward toy_engine x_qnn (Some (NDArray [2, 1] [0, 3])) (Some (NDArray [0] [])))
       = Inl ValueError
   \<and> fst (backward_batch toy_engine x_qnn (Some (NDArray [2, 1] [0, 3])) (Some (NDArray [0] [])))
       = Inl ValueError"
proof -
  have "fst (forward toy_engine x_qnn (Some (NDArray [2, 1] [0, 3])) (Some (NDArray [0] [])))
       = Inr (NDArray [2, 1] [0, 9])"
    "fst (eval_gradient toy_engine x_qnn [(''x'', PyList [Num 0, Num 3])])
       = Inr (NDArray [2, 1] [0, 6])"
    "fst (backward toy_engine x_qnn (Some (NDArray [2, 1] [0, 3])) (Some (NDArray [0] [])))
       = Inl ValueError"
    "fst (backward_batch toy_engine x_qnn (Some (NDArray [2, 1] [0, 3])) (Some (NDArray [0] [])))
       = Inl ValueError"
    by code_simp+
  then show ?thesis
    using x_qnn_init by (simp add: x_qnn_def)
qed

text \<open>
  Claim C2.  The adapter over \<open>w\<^sup>2\<close> with no input parameter and one weight parameter, on a
  batch of two rows: both backward paths raise \<open>ValueError\<close> at the reshape of the input
  gradient, where the claim expects gradients of shapes \<open>(2, 1, 0)\<close> and \<open>(2, 1, 1)\<close>.
\<close>

theorem backward_without_inputs_raises:
  "OpflowQNN_init toy_engine (PrimitiveOp (SumSquares [''w''])) None (Some [''w'']) None None None
     = Inr w_qnn
   \<and> num_inputs w_qnn = 0 \<and> num_weights w_qnn = 1 \<and> output_shape w_qnn = [1]
   \<and> fst (forward toy_engine w_qnn (Some (NDArray [2, 0] [])) (Some (NDArray [1] [3])))
       = Inr (NDArray [2, 1] [9, 9])
   \<and> fst (eval_gradient toy_engine w_qnn [(''w'', PyList [Num 3, Num 3])])
       = Inr (NDArray [2, 1] [6, 6])
   \<and> fst (backward toy_engine w_qnn (Some (NDArray [2, 0] [])) (Some (NDArray [1] [3])))
       = Inl ValueError
   \<and> fst (backward_batch toy_engine w_qnn (Some (NDArray [2, 0] [])) (Some (NDArray [1] [3])))
       = Inl ValueError"
proof -
  have "fst (forward toy_engine w_qnn (Some (NDArray [2, 0] [])) (Some (NDArray [1] [3])))
       = Inr (NDArray [2, 1] [9, 9])"
    "fst (eval_gradient toy_engine w_qnn [(''w'', PyList [Num 3, Num 3])])
       = Inr (NDArray [2, 1] [6, 6])"
    "fst (backward toy_engine w_qnn (Some (NDArray [2, 0] [])) (Some (NDArray [1] [3])))
       = Inl ValueError"
    "fst (backward_batch toy_engine w_qnn (Some (NDArray [2, 0] [])) (Some (NDArray [1] [3])))
       = Inl ValueError"
    by code_simp+
  then show ?thesis
    using w_qnn_init by (simp add: w_qnn_def)
qed

text \<open>
  Claim C3.  The adapter over a \<open>ListOp\<close> with two outputs, one input and one weight, on a
  batch of two rows.  The gradient of one row has shape \<open>(2, 2)\<close>, parameters by outputs, and
  the batched gradient is the stack of the rows' gradients.  The per-row path raises
  \<open>ValueError\<close> when it stores a row's gradient into a buffer row of two numbers; the
  batched path returns.
\<close>

theorem backward_paths_differ_on_two_outputs:
  "OpflowQNN_init toy_engine
     (ListOp [PrimitiveOp (SumSquares [''x'', ''w'']), PrimitiveOp (SumSquares [''x''])] Some)
     (Some [''x'']) (Some [''w'']) None None None = Inr pair_qnn
   \<and> output_shape pair_qnn = [2]
   \<and> fst (eval_gradient toy_engine pair_qnn [(''x'', Num 1), (''w'', Num 3)])
       = Inr (NDArray [2, 2] [2, 2, 6, 0])
   \<and> fst (eval_gradient toy_engine pair_qnn [(''x'', Num 2), (''w'', Num 3)])
       = Inr (NDArray [2, 2] [4, 4, 6, 0])
   \<and> fst (eval_gradient toy_engine pair_qnn
            [(''x'', PyList [Num 1, Num 2]), (''w'', PyList [Num 3, Num 3])])
       = Inr (NDArray [2, 2, 2] [2, 2, 6, 0, 4, 4, 6, 0])
   \<and> fst (backward toy_engine pair_qnn (Some (NDArray [2, 1] [1, 2])) (Some (NDArray [1] [3])))
       = Inl ValueError
   \<and> fst (backward_batch toy_engine pair_qnn (Some (NDArray [2, 1] [1, 2]))
            (Some (NDArray [1] [3])))
       = Inr (NDArray [2, 2, 1] [2, 2, 4, 4], NDArray [2, 2, 1] [6, 0, 6, 0])"
proof -
  have "fst (eval_gradient toy_engine pair_qnn [(''x'', Num 1), (''w'', Num 3)])
       = Inr (NDArray [2, 2] [2, 2, 6, 0])"
    "fst (eval_gradient toy_engine pair_qnn [(''x'', Num 2), (''w'', Num 3)])
       = Inr (NDArray [2, 2] [4, 4, 6, 0])"
    "fst (eval_gradient toy_engine pair_qnn
            [(''x'', PyList [Num 1, Num 2]), (''w'', PyList [Num 3, Num 3])])
       = Inr (NDArray [2, 2, 2] [2, 2, 6, 0, 4, 4, 6, 0])"
    "fst (backward toy_engine pair_qnn (Some (NDArray [2, 1] [1, 2])) (Some (NDArray [1] [3])))
       = Inl ValueError"
    "fst (backward_batch toy_engine pair_qnn (Some (NDArray [2, 1] [1, 2]))
            (Some (NDArray [1] [3])))
       = Inr (NDArray [2, 2, 1] [2, 2, 4, 4], NDArray [2, 2, 1] [6, 0, 6, 0])"
    by code_simp+
  then show ?thesis
    using pair_qnn_init by (simp add: pair_qnn_def)
qed

section \<open>Columns of the split\<close>

lemma length_concat_uniform:
  "\<forall>b \<in> set bs. length b = m \<Longrightarrow> length (concat bs) = length bs * m"
  by (induction bs) simp_all

lemma nth_concat_uniform:
  "\<forall>b \<in> set bs. length b = m \<Longrightarrow> i < length bs \<Longrightarrow> q < m \<Longrightarrow>
   concat bs ! (i * m + q) = bs ! i ! q"
proof (induction bs arbitrary: i)
  case Nil
  then show ?case by simp
next
  case (Cons b bs)
  show ?case
  proof (cases i)
    case 0
    then show ?thesis using Cons.prems by (simp add: nth_append)
  next
    case (Suc j)
    have "concat (b # bs) ! (i * m + q) = concat bs ! (j * m + q)"
      using Cons.prems Suc by (simp add: nth_append)
    also have "\<dots> = bs ! j ! q"
      using Cons.IH [of j] Cons.prems Suc by simp
    finally show ?thesis using Suc by simp
  qed
qed

lemma block_bound:
  assumes "i < n"
  shows "i * m + m \<le> n * (m :: nat)"
proof -
  have "Suc i \<le> n" using assms by simp
  then have "Suc i * m \<le> n * m" by (rule mult_le_mono1)
  then show ?thesis by (simp add: add.commute)
qed

lemma length_blocks: "length (blocks n m xs) = n"
  by (simp add: blocks_def)

lemma blocks_nth:
  "i < n \<Longrightarrow> blocks n m xs ! i = take m (drop (i * m) xs)"
  by (simp add: blocks_def)

lemma length_block:
  assumes "length xs = n * m" and "i < n"
  shows "length (blocks n m xs ! i) = m"
  using block_bound [OF assms(2), of m] assms by (simp add: blocks_nth)

lemma block_nth:
  assumes "length xs = n * m" and "i < n" and "q < m"
  shows "blocks n m xs ! i ! q = xs ! (i * m + q)"
  using block_bound [OF assms(2), of m] assms by (simp add: blocks_nth)

lemma slices_lower:
  assumes "length xs = n * m" and "lo \<le> m"
  shows "length (concat (map (take lo) (blocks n m xs))) = n * lo"
    and "i < n \<Longrightarrow> q < lo \<Longrightarrow>
         concat (map (take lo) (blocks n m xs)) ! (i * lo + q) = xs ! (i * m + q)"
proof -
  let ?bs = "map (take lo) (blocks n m xs)"
  have len: "\<forall>b \<in> set ?bs. length b = lo"
  proof
    fix b assume "b \<in> set ?bs"
    then obtain i where i: "i < n" "b = take lo (blocks n m xs ! i)"
      by (auto simp: in_set_conv_nth length_blocks)
    then show "length b = lo"
      using length_block [OF assms(1) i(1)] assms(2) by simp
  qed
  show "length (concat ?bs) = n * lo"
    using length_concat_uniform [OF len] by (simp add: length_blocks)
  show "concat ?bs ! (i * lo + q) = xs ! (i * m + q)" if "i < n" "q < lo"
  proof -
    have "concat ?bs ! (i * lo + q) = ?bs ! i ! q"
      using nth_concat_uniform [OF len, of i q] that by (simp add: length_blocks)
    also have "\<dots> = blocks n m xs ! i ! q"
      using that by (simp add: length_blocks)
    also have "\<dots> = xs ! (i * m + q)"
      using block_nth [OF assms(1) that(1), of q] that(2) assms(2) by simp
    finally show ?thesis .
  qed
qed

lemma slices_upper:
  assumes "length xs = n * m" and "lo \<le> m"
  shows "length (concat (map (drop lo) (blocks n m xs))) = n * (m - lo)"
    and "i < n \<Longrightarrow> q < m - lo \<Longrightarrow>
         concat (map (drop lo) (blocks n m xs)) ! (i * (m - lo) + q) = xs ! (i * m + lo + q)"
proof -
  let ?bs = "map (drop lo) (blocks n m xs)"
  have len: "\<forall>b \<in> set ?bs. length b = m - lo"
  proof
    fix b assume "b \<in> set ?bs"
    then obtain i where i: "i < n" "b = drop lo (blocks n m xs ! i)"
      by (auto simp: in_set_conv_nth length_blocks)
    then show "length b = m - lo"
      using length_block [OF assms(1) i(1)] by simp
  qed
  show "length (concat ?bs) = n * (m - lo)"
    using length_concat_uniform [OF len] by (simp add: length_blocks)
  show "concat ?bs ! (i * (m - lo) + q) = xs ! (i * m + lo + q)" if "i < n" "q < m - lo"
  proof -
    have "concat ?bs ! (i * (m - lo) + q) = ?bs ! i ! q"
      using nth_concat_uniform [OF len, of i q] that by (simp add: length_blocks)
    also have "\<dots> = blocks n m xs ! i ! (lo + q)"
      using that length_block [OF assms(1) that(1)] by (simp add: length_blocks)
    also have "\<dots> = xs ! (i * m + (lo + q))"
      using block_nth [OF assms(1) that(1), of "lo + q"] that(2) by simp
    finally show ?thesis by (simp add: add.assoc)
  qed
qed

lemma reshape_rows_data: "reshape_rows a dims = Inr b \<Longrightarrow> data b = data a"
  by (auto simp: reshape_rows_def Let_def split: if_splits)

lemma split_gradient_columns:
  assumes split: "split_gradient self grad = Inr (input_grad, weights_grad)"
    and wf: "wf_array grad"
  shows "columns_split (num_inputs self) grad input_grad weights_grad"
proof -
  obtain gi where gi: "cols_upto (num_inputs self) grad = Inr gi"
    and ri: "reshape_rows gi (output_shape self @ [num_inputs self]) = Inr input_grad"
    using split by (auto simp: split_gradient_def split: sum.splits)
  obtain gw where gw: "cols_from (num_inputs self) grad = Inr gw"
    and rw: "reshape_rows gw (output_shape self @ [num_weights self]) = Inr weights_grad"
    using split by (auto simp: split_gradient_def split: sum.splits)
  obtain d0 d1 rest where sh: "shape grad = d0 # d1 # rest"
    using gi by (auto simp: cols_upto_def split: list.splits)
  let ?inner = "prod_list rest"
  let ?m = "d1 * ?inner"
  let ?lo = "min (num_inputs self) d1 * ?inner"
  let ?hi = "(d1 - min (num_inputs self) d1) * ?inner"
  have len: "length (data grad) = d0 * ?m"
    using wf sh by (simp add: wf_array_def)
  have lo: "?lo \<le> ?m"
    by (simp add: mult_le_mono1)
  have hi: "?hi = ?m - ?lo"
    by (simp add: diff_mult_distrib)
  have di: "data input_grad = concat (map (take ?lo) (blocks d0 ?m (data grad)))"
    using gi sh reshape_rows_data [OF ri] by (auto simp: cols_upto_def Let_def)
  have dw: "data weights_grad = concat (map (drop ?lo) (blocks d0 ?m (data grad)))"
    using gw sh reshape_rows_data [OF rw] by (auto simp: cols_from_def Let_def)
  have "length (data input_grad) = d0 * ?lo"
    unfolding di by (rule slices_lower(1) [OF len lo])
  moreover have "length (data weights_grad) = d0 * ?hi"
    unfolding dw hi by (rule slices_upper(1) [OF len lo])
  moreover have "data input_grad ! (i * ?lo + q) = data grad ! (i * ?m + q)"
    if "i < d0" "q < ?lo" for i q
    unfolding di by (rule slices_lower(2) [OF len lo that])
  moreover have "data weights_grad ! (i * ?hi + q) = data grad ! (i * ?m + ?lo + q)"
    if "i < d0" "q < ?hi" for i q
    using slices_upper(2) [OF len lo that(1), of q] that(2) unfolding dw hi by simp
  ultimately show ?thesis
    unfolding columns_split_def sh by (simp add: Let_def list_all_iff)
qed


lemma assign_row_shape:
  "assign_row grad_all row grad = Inr grad_all' \<Longrightarrow> shape grad_all' = shape grad_all"
  by (auto simp: assign_row_def split: list.splits sum.splits)

lemma backward_rows_shape:
  "fst (backward_rows E a w rows grad_all self) = Inr g \<Longrightarrow> shape g = shape grad_all"
proof (induction rows arbitrary: grad_all self)
  case Nil
  then show ?case by simp
next
  case (Cons row rows)
  obtain pv where pv: "row_param_values self a w row = Inr pv"
    using Cons.prems by (cases "row_param_values self a w row") simp_all
  obtain r s where ev: "eval_gradient E self pv = (r, s)"
    by (cases "eval_gradient E self pv")
  obtain grad where grad: "r = Inr grad"
    using Cons.prems pv ev by (cases r) simp_all
  obtain grad_all' where buf: "assign_row grad_all row grad = Inr grad_all'"
    using Cons.prems pv ev grad by (cases "assign_row grad_all row grad") simp_all
  have "fst (backward_rows E a w rows grad_all' s) = Inr g"
    using Cons.prems pv ev grad buf by simp
  then have "shape g = shape grad_all'"
    by (rule Cons.IH)
  then show ?case
    using assign_row_shape [OF buf] by simp
qed

lemma backward_batch_returns:
  assumes "fst (backward_batch E self x w) = Inr res"
  shows "\<exists>pv grad. batch_param_values self x w = Inr pv \<and>
                   fst (eval_gradient E self pv) = Inr grad \<and>
                   split_gradient self grad = Inr res"
proof -
  obtain pv where pv: "batch_param_values self x w = Inr pv"
    using assms by (cases "batch_param_values self x w") (simp_all add: backward_batch_def)
  obtain r s where ev: "eval_gradient E self pv = (r, s)"
    by (cases "eval_gradient E self pv")
  obtain gs where s: "s = self\<lparr>gradient_sampler := gs\<rparr>"
    using eval_gradient_frame [of E self pv] ev by auto
  obtain grad where grad: "r = Inr grad"
    using assms pv ev by (cases r) (simp_all add: backward_batch_def)
  have "split_gradient self grad = Inr res"
    using assms pv ev grad s by (simp add: backward_batch_def split_gradient_frame)
  then show ?thesis
    using pv ev grad by auto
qed

lemma backward_returns:
  assumes "fst (backward E self x w) = Inr res"
  shows "\<exists>a n rest grad_all.
           x = Some a \<and> shape a = n # rest \<and>
           fst (backward_rows E a w [0..<n]
                  (np_zeros [n, length (input_params self) + length (weight_params self)]) self)
             = Inr grad_all \<and>
           shape grad_all = [n, length (input_params self) + length (weight_params self)] \<and>
           split_gradient self grad_all = Inr res"
proof -
  obtain a where a: "x = Some a"
    using assms by (cases x) (simp_all add: backward_def)
  obtain n rest where sh: "shape a = n # rest"
    using assms a by (cases "shape a") (simp_all add: backward_def)
  let ?buf = "np_zeros [n, length (input_params self) + length (weight_params self)]"
  obtain r s where rows: "backward_rows E a w [0..<n] ?buf self = (r, s)"
    by (cases "backward_rows E a w [0..<n] ?buf self")
  obtain gs where s: "s = self\<lparr>gradient_sampler := gs\<rparr>"
    using backward_rows_frame [of E a w "[0..<n]" ?buf self] rows by auto
  obtain grad_all where g: "r = Inr grad_all"
    using assms a sh rows by (cases r) (simp_all add: backward_def)
  have "split_gradient self grad_all = Inr res"
    using assms a sh rows g s by (simp add: backward_def split_gradient_frame)
  moreover have "shape grad_all = [n, length (input_params self) + length (weight_params self)]"
    using backward_rows_shape [of E a w "[0..<n]" ?buf self grad_all] rows g
    by (simp add: np_zeros_def)
  ultimately show ?thesis
    using a sh rows g by auto
qed

lemma init_fields:
  assumes "OpflowQNN_init E op inputs ws ev gr ctx = Inr self"
  shows "input_params self = params_or_empty inputs"
    and "weight_params self = params_or_empty ws"
    and "num_inputs self = length (input_params self)"
    and "num_weights self = length (weight_params self)"
    and "gradient self = (case gr of None \<Rightarrow> default_gradient E | Some g \<Rightarrow> g)"
    and "gradient self op (input_params self @ weight_params self) = Some (gradient_operator self)"
    and "get_output_shape_from_op op = Inr (output_shape self)"
  using assms
  by (auto simp: OpflowQNN_init_def NeuralNetwork_init_def Let_def split: option.splits sum.splits)

text \<open>
  Claim C4.  Construction differentiates with respect to \<open>input_params + weight_params\<close>, the
  inputs first, and \<open>num_inputs\<close> is the number of input parameters.  A backward pass that
  returns, by either path, has split its gradient (the evaluated array in the batched path,
  the buffer of the rows in the per-row path) at column \<open>num_inputs\<close>: the columns below
  it are the input gradient, the columns from it on are the weight gradient.
\<close>

theorem gradient_split_at_num_inputs:
  "(OpflowQNN_init E op inputs ws ev gr ctx = Inr self \<longrightarrow>
      input_params self = params_or_empty inputs \<and>
      weight_params self = params_or_empty ws \<and>
      num_inputs self = length (input_params self) \<and>
      gradient self = (case gr of None \<Rightarrow> default_gradient E | Some g \<Rightarrow> g) \<and>
      gradient self op (input_params self @ weight_params self) = Some (gradient_operator self))
   \<and> (fst (backward_batch E self x w) = Inr (input_grad, weights_grad) \<longrightarrow>
      (\<exists>pv grad.
         batch_param_values self x w = Inr pv \<and>
         fst (eval_gradient E self pv) = Inr grad \<and>
         (wf_array grad \<longrightarrow> columns_split (num_inputs self) grad input_grad weights_grad)))
   \<and> (fst (backward E self x w) = Inr (input_grad, weights_grad) \<longrightarrow>
      (\<exists>a n rest grad_all.
         x = Some a \<and> shape a = n # rest \<and>
         fst (backward_rows E a w [0..<n]
                (np_zeros [n, length (input_params self) + length (weight_params self)]) self)
           = Inr grad_all \<and>
         shape grad_all = [n, length (input_params self) + length (weight_params self)] \<and>
         (wf_array grad_all \<longrightarrow>
            columns_split (num_inputs self) grad_all input_grad weights_grad)))"
proof (intro conjI impI)
  assume init: "OpflowQNN_init E op inputs ws ev gr ctx = Inr self"
  show "input_params self = params_or_empty inputs"
    by (rule init_fields(1) [OF init])
  show "weight_params self = params_or_empty ws"
    by (rule init_fields(2) [OF init])
  show "num_inputs self = length (input_params self)"
    by (rule init_fields(3) [OF init])
  show "gradient self = (case gr of None \<Rightarrow> default_gradient E | Some g \<Rightarrow> g)"
    by (rule init_fields(5) [OF init])
  show "gradient self op (input_params self @ weight_params self) = Some (gradient_operator self)"
    by (rule init_fields(6) [OF init])
next
  assume "fst (backward_batch E self x w) = Inr (input_grad, weights_grad)"
  then obtain pv grad where "batch_param_values self x w = Inr pv"
      "fst (eval_gradient E self pv) = Inr grad"
      "split_gradient self grad = Inr (input_grad, weights_grad)"
    using backward_batch_returns by blast
  then show "\<exists>pv grad.
         batch_param_values self x w = Inr pv \<and>
         fst (eval_gradient E self pv) = Inr grad \<and>
         (wf_array grad \<longrightarrow> columns_split (num_inputs self) grad input_grad weights_grad)"
    using split_gradient_columns by blast
next
  assume "fst (backward E self x w) = Inr (input_grad, weights_grad)"
  then obtain a n rest grad_all where "x = Some a" "shape a = n # rest"
      "fst (backward_rows E a w [0..<n]
              (np_zeros [n, length (input_params self) + length (weight_params self)]) self)
         = Inr grad_all"
      "shape grad_all = [n, length (input_params self) + length (weight_params self)]"
      "split_gradient self grad_all = Inr (input_grad, weights_grad)"
    using backward_returns by blast
  then show "\<exists>a n rest grad_all.
         x = Some a \<and> shape a = n # rest \<and>
         fst (backward_rows E a w [0..<n]
                (np_zeros [n, length (input_params self) + length (weight_params self)]) self)
           = Inr grad_all \<and>
         shape grad_all = [n, length (input_params self) + length (weight_params self)] \<and>
         (wf_array grad_all \<longrightarrow>
            columns_split (num_inputs self) grad_all input_grad weights_grad)"
    using split_gradient_columns by blast
qed

theorem gradient_split_at_num_inputs_witness:
  "OpflowQNN_init toy_engine (PrimitiveOp (SumSquares [''x'', ''w'']))
     (Some [''x'']) (Some [''w'']) None None None = Inr xw_qnn
   \<and> toy_gradient (PrimitiveOp (SumSquares [''x'', ''w''])) ([''x''] @ [''w''])
       = Some (gradient_operator xw_qnn)
   \<and> fst (backward_batch toy_engine xw_qnn (Some (NDArray [2, 1] [1, 2])) (Some (NDArray [1] [3])))
       = Inr (NDArray [2, 1, 1] [2, 4], NDArray [2, 1, 1] [6, 6])
   \<and> fst (eval_gradient toy_engine xw_qnn
            [(''x'', PyList [Num 1, Num 2]), (''w'', PyList [Num 3, Num 3])])
       = Inr (NDArray [2, 2] [2, 6, 4, 6])
   \<and> wf_array (NDArray [2, 2] [2, 6, 4, 6 :: real])
   \<and> columns_split (num_inputs xw_qnn) (NDArray [2, 2] [2, 6, 4, 6])
        (NDArray [2, 1, 1] [2, 4]) (NDArray [2, 1, 1] [6, 6])
   \<and> fst (backward toy_engine xw_qnn (Some (NDArray [2, 1] [1, 2])) (Some (NDArray [1] [3])))
       = Inr (NDArray [2, 1, 1] [2, 4], NDArray [2, 1, 1] [6, 6])"
proof -
  let ?x = "Some (NDArray [2, 1] [1, 2 :: real])" and ?w = "Some (NDArray [1] [3 :: real])"
  let ?pv = "[(''x'', PyList [Num 1, Num 2]), (''w'', PyList [Num 3, Num 3])]"
  let ?ig = "NDArray [2, 1, 1] [2, 4 :: real]" and ?wg = "NDArray [2, 1, 1] [6, 6 :: real]"
  note inst = gradient_split_at_num_inputs
               [of toy_engine "PrimitiveOp (SumSquares [''x'', ''w''])" "Some [''x'']"
                   "Some [''w'']" None None None xw_qnn ?x ?w ?ig ?wg]
  have batch: "fst (backward_batch toy_engine xw_qnn ?x ?w) = Inr (?ig, ?wg)"
    by code_simp
  have rows: "fst (backward toy_engine xw_qnn ?x ?w) = Inr (?ig, ?wg)"
    by code_simp
  have pv: "batch_param_values xw_qnn ?x ?w = Inr ?pv"
    by code_simp
  have ev: "fst (eval_gradient toy_engine xw_qnn ?pv) = Inr (NDArray [2, 2] [2, 6, 4, 6])"
    by code_simp
  have wf: "wf_array (NDArray [2, 2] [2, 6, 4, 6 :: real])"
    by (simp add: wf_array_def)
  have grad: "toy_gradient (PrimitiveOp (SumSquares [''x'', ''w''])) ([''x''] @ [''w''])
                = Some (gradient_operator xw_qnn)"
    using inst [THEN conjunct1] xw_qnn_init by (simp add: xw_qnn_def)
  obtain pv' grad' where "batch_param_values xw_qnn ?x ?w = Inr pv'"
      "fst (eval_gradient toy_engine xw_qnn pv') = Inr grad'"
      "wf_array grad' \<longrightarrow> columns_split (num_inputs xw_qnn) grad' ?ig ?wg"
    using inst [THEN conjunct2, THEN conjunct1] batch by blast
  then have split: "columns_split (num_inputs xw_qnn) (NDArray [2, 2] [2, 6, 4, 6]) ?ig ?wg"
    using pv ev wf by simp
  show ?thesis
    using xw_qnn_init grad batch ev wf split rows by simp
qed

section \<open>Where the backward paths return and agree\<close>

lemma reshape_rows_Inr:
  assumes "reshape_rows a dims = Inr b"
  shows "0 < prod_list dims" and "prod_list dims dvd prod_list (shape a)"
    and "shape b = (prod_list (shape a) div prod_list dims) # dims"
  using assms by (auto simp: reshape_rows_def Let_def split: if_splits)

text \<open>
  Where the per-row backward pass returns, there is at least one input parameter and one
  weight parameter, the number of output elements divides the number of rows \<open>n\<close>, and the
  gradients have the shapes \<open>(n div P, *output_shape, num_inputs)\<close> and
  \<open>(n div P, *output_shape, num_weights)\<close>, where \<open>P\<close> is the number of output elements: the
  leading axis is \<open>n\<close> for an output shape of one element.
\<close>

lemma backward_shapes:
  assumes counts: "num_inputs self = length (input_params self)"
      "num_weights self = length (weight_params self)"
    and x: "x = Some a" "shape a = n # rest"
    and ret: "fst (backward E self x w) = Inr (input_grad, weights_grad)"
  shows "0 < num_inputs self \<and> 0 < num_weights self
       \<and> prod_list (output_shape self) dvd n
       \<and> shape input_grad
           = (n div prod_list (output_shape self)) # output_shape self @ [num_inputs self]
       \<and> shape weights_grad
           = (n div prod_list (output_shape self)) # output_shape self @ [num_weights self]"
proof -
  let ?p = "num_inputs self" and ?w = "num_weights self"
  let ?P = "prod_list (output_shape self)"
  obtain grad_all where sh: "shape grad_all = [n, ?p + ?w]"
    and split: "split_gradient self grad_all = Inr (input_grad, weights_grad)"
    using backward_returns [OF ret] x counts by auto
  obtain gi where gi: "cols_upto ?p grad_all = Inr gi"
    and ri: "reshape_rows gi (output_shape self @ [?p]) = Inr input_grad"
    using split by (auto simp: split_gradient_def split: sum.splits)
  obtain gw where gw: "cols_from ?p grad_all = Inr gw"
    and rw: "reshape_rows gw (output_shape self @ [?w]) = Inr weights_grad"
    using split by (auto simp: split_gradient_def split: sum.splits)
  have shi: "shape gi = [n, ?p]"
    using gi sh by (auto simp: cols_upto_def Let_def)
  have shw: "shape gw = [n, ?w]"
    using gw sh by (auto simp: cols_from_def Let_def)
  have p: "0 < ?P * ?p" "?P * ?p dvd n * ?p"
      "shape input_grad = (n * ?p div (?P * ?p)) # output_shape self @ [?p]"
    using reshape_rows_Inr [OF ri] shi by simp_all
  have w: "0 < ?P * ?w" "?P * ?w dvd n * ?w"
      "shape weights_grad = (n * ?w div (?P * ?w)) # output_shape self @ [?w]"
    using reshape_rows_Inr [OF rw] shw by simp_all
  have pos: "0 < ?p" "0 < ?w" "0 < ?P"
    using p(1) w(1) by simp_all
  have "?P dvd n"
    using p(2) pos(1) by simp
  moreover have "n * ?p div (?P * ?p) = n div ?P" "n * ?w div (?P * ?w) = n div ?P"
    using pos by simp_all
  ultimately show ?thesis
    using p(3) w(3) pos by simp
qed

text \<open>
  Where the gradient of every row is a flat vector of as many values as there are
  parameters, and the batched gradient is the array of these rows, the two backward paths
  return the same: the loop of the per-row path fills its buffer with the batched
  gradient, one row at a time, and both paths split it alike.
\<close>

lemma broadcast_row_flat:
  assumes "shape g = [k]" and "length (data g) = k"
  shows "broadcast_row g k = Inr (data g)"
proof (cases "k = 1")
  case True
  then obtain v where "data g = [v]"
    using assms(2) by (cases "data g") auto
  then show ?thesis
    using True assms(1) by (simp add: broadcast_row_def)
next
  case False
  then show ?thesis
    using assms(1) by (simp add: broadcast_row_def)
qed

lemma assign_row_flat:
  assumes "shape grad_all = [n, k]" and "shape g = [k]" and "length (data g) = k"
  shows "assign_row grad_all row g =
           Inr (NDArray [n, k]
                  (take (row * k) (data grad_all) @ data g @ drop (Suc row * k) (data grad_all)))"
  using assms broadcast_row_flat [OF assms(2,3)] by (simp add: assign_row_def)

lemma eval_gradient_frame_update:
  "\<exists>gs'. snd (eval_gradient E (self\<lparr>gradient_sampler := gs\<rparr>) pv)
          = self\<lparr>gradient_sampler := gs'\<rparr>"
proof -
  obtain gs' where "snd (eval_gradient E (self\<lparr>gradient_sampler := gs\<rparr>) pv)
                      = self\<lparr>gradient_sampler := gs, gradient_sampler := gs'\<rparr>"
    using eval_gradient_frame [of E "self\<lparr>gradient_sampler := gs\<rparr>" pv] by blast
  then show ?thesis by auto
qed

lemma backward_rows_fills:
  assumes rows: "\<And>r gs. r < n \<Longrightarrow>
             \<exists>pv g. row_param_values self a w r = Inr pv \<and>
                    fst (eval_gradient E (self\<lparr>gradient_sampler := gs\<rparr>) pv) = Inr g \<and>
                    shape g = [k] \<and> data g = take k (drop (r * k) xs)"
    and len: "length xs = n * k"
    and j: "j \<le> n"
  shows "fst (backward_rows E a w [j..<n]
                (NDArray [n, k] (take (j * k) xs @ replicate ((n - j) * k) 0))
                (self\<lparr>gradient_sampler := gs\<rparr>))
           = Inr (NDArray [n, k] xs)"
  using j
proof (induction "n - j" arbitrary: j gs)
  case 0
  then have "j = n" by simp
  then show ?case using len by simp
next
  case (Suc d)
  then have jn: "j < n" by simp
  let ?buf = "NDArray [n, k] (take (j * k) xs @ replicate ((n - j) * k) 0)"
  let ?self = "self\<lparr>gradient_sampler := gs\<rparr>"
  obtain pv g where pv: "row_param_values self a w j = Inr pv"
    and ev: "fst (eval_gradient E ?self pv) = Inr g"
    and sg: "shape g = [k]" and dg: "data g = take k (drop (j * k) xs)"
    using rows [OF jn, of gs] by blast
  obtain gs' where s': "snd (eval_gradient E ?self pv) = self\<lparr>gradient_sampler := gs'\<rparr>"
    using eval_gradient_frame_update by blast
  have evp: "eval_gradient E ?self pv = (Inr g, self\<lparr>gradient_sampler := gs'\<rparr>)"
    using ev s' by (cases "eval_gradient E ?self pv") simp
  have bound: "j * k + k \<le> n * k"
    by (rule block_bound [OF jn])
  have lg: "length (data g) = k"
    using dg len bound by simp
  have pre: "take (j * k) (take (j * k) xs @ replicate ((n - j) * k) 0) = take (j * k) xs"
    using len bound jn by simp
  have "n - j = Suc (n - Suc j)"
    using jn by simp
  then have "(n - j) * k = k + (n - Suc j) * k"
    by simp
  then have post: "drop (Suc j * k) (take (j * k) xs @ replicate ((n - j) * k) 0)
                     = replicate ((n - Suc j) * k) 0"
    using len bound by simp
  have "take (j * k + k) xs = take (j * k) xs @ take k (drop (j * k) xs)"
    by (rule take_add)
  moreover have "Suc j * k = j * k + k"
    by simp
  ultimately have "take (Suc j * k) xs = take (j * k) xs @ take k (drop (j * k) xs)"
    by (simp only:)
  then have new: "take (j * k) xs @ data g @ replicate ((n - Suc j) * k) 0
                    = take (Suc j * k) xs @ replicate ((n - Suc j) * k) 0"
    using dg by simp
  have assign: "assign_row ?buf j g
                  = Inr (NDArray [n, k] (take (Suc j * k) xs @ replicate ((n - Suc j) * k) 0))"
    using assign_row_flat [of ?buf n k g j] sg lg pre post new by simp
  have step: "fst (backward_rows E a w [Suc j..<n]
                (NDArray [n, k] (take (Suc j * k) xs @ replicate ((n - Suc j) * k) 0))
                (self\<lparr>gradient_sampler := gs'\<rparr>))
           = Inr (NDArray [n, k] xs)"
    using Suc.hyps(1) [of "Suc j" gs'] Suc.hyps(2) jn by simp
  have "[j..<n] = j # [Suc j..<n]"
    using jn by (rule upt_conv_Cons)
  then show ?case
    using pv evp assign step by (simp add: row_param_values_frame)
qed

lemma backward_paths_agree_on_flat_gradients:
  assumes x: "x = Some a" "shape a = n # rest"
    and k: "k = length (input_params self) + length (weight_params self)"
    and batch: "batch_param_values self x w = Inr bpv"
      "fst (eval_gradient E self bpv) = Inr grad" "shape grad = [n, k]" "wf_array grad"
    and rows: "\<And>r gs. r < n \<Longrightarrow>
             \<exists>pv g. row_param_values self a w r = Inr pv \<and>
                    fst (eval_gradient E (self\<lparr>gradient_sampler := gs\<rparr>) pv) = Inr g \<and>
                    shape g = [k] \<and> data g = take k (drop (r * k) (data grad))"
  shows "fst (backward E self x w) = fst (backward_batch E self x w)"
proof -
  have len: "length (data grad) = n * k"
    using batch(3,4) by (simp add: wf_array_def)
  have grad: "grad = NDArray [n, k] (data grad)"
    using batch(3) by (cases grad) simp
  let ?buf = "np_zeros [n, k]"
  have buf: "?buf = NDArray [n, k] (take (0 * k) (data grad) @ replicate ((n - 0) * k) 0)"
    by (simp add: np_zeros_def)
  have self: "self = self\<lparr>gradient_sampler := gradient_sampler self\<rparr>"
    by simp
  have filled: "fst (backward_rows E a w [0..<n] ?buf self) = Inr grad"
    using backward_rows_fills [OF rows len, where j = 0 and gs = "gradient_sampler self"]
      buf grad self
    by simp
  obtain r s where rs: "backward_rows E a w [0..<n] ?buf self = (r, s)"
    by (cases "backward_rows E a w [0..<n] ?buf self")
  obtain gs where s: "s = self\<lparr>gradient_sampler := gs\<rparr>"
    using backward_rows_frame [of E a w "[0..<n]" ?buf self] rs by auto
  have per_row: "fst (backward E self x w) = split_gradient self grad"
    using x k rs s filled by (simp add: backward_def split_gradient_frame)
  obtain r' s' where rs': "eval_gradient E self bpv = (r', s')"
    by (cases "eval_gradient E self bpv")
  obtain gs' where s': "s' = self\<lparr>gradient_sampler := gs'\<rparr>"
    using eval_gradient_frame [of E self bpv] rs' by auto
  have "fst (backward_batch E self x w) = split_gradient self grad"
    using batch(1,2) rs' s' by (simp add: backward_batch_def split_gradient_frame)
  then show ?thesis
    using per_row by simp
qed

end
